theory Spec2Isabelle
  imports
    Main
    "HOL-Library.Word"
    "HOL-Library.Char_ord"
    "HOL-Library.List_Lexorder"
    "HOL-Library.Sublist"
begin

section \<open>Common types\<close>

type_synonym guint32 = "32 word"
type_synonym guint64 = "64 word"
type_synonym gint64 = "64 word"

text \<open>
  Ways in which a call does not return to its caller: \<^verbatim>\<open>g_error\<close> and \<^verbatim>\<open>g_assert\<close> abort
  the process, the remainder operator with a zero divisor traps, a receive on a
  connection on which no frame arrives blocks, a read past the end of a received frame
  and a store through \<^verbatim>\<open>NULL\<close> are undefined, and GLib aborts on a critical message
  when critical messages are fatal.
\<close>

datatype fault =
  FatalError | AssertionFailed | DivisionByZero | NoReply | BadReply | NullPointer
| CriticalAbort

text \<open>
  How the running process has GLib treat a critical message. By default it is only
  logged; with \<^verbatim>\<open>G_DEBUG=fatal-criticals\<close>, or after \<^verbatim>\<open>g_test_init\<close> (which src/test/test.c
  calls), it is fatal and the process aborts where the message is raised.
\<close>

datatype glib_criticals = Criticals_logged | Criticals_fatal

text \<open>
  GLib's two kinds of check. A failed \<^verbatim>\<open>g_return_val_if_fail\<close> (or \<^verbatim>\<open>g_return_if_fail\<close>)
  raises a critical message and then, unless that was fatal, makes the function return
  the given value; a failed \<^verbatim>\<open>g_assert\<close> aborts.
\<close>

definition g_return_val_if_fail ::
  "glib_criticals \<Rightarrow> bool \<Rightarrow> 'a \<Rightarrow> (fault + 'a) \<Rightarrow> fault + 'a" where
  "g_return_val_if_fail criticals cond val rest =
     (if cond then rest
      else (case criticals of
              Criticals_logged \<Rightarrow> Inr val
            | Criticals_fatal \<Rightarrow> Inl CriticalAbort))"

definition g_assert :: "bool \<Rightarrow> (fault + 'a) \<Rightarrow> fault + 'a" where
  "g_assert cond rest = (if cond then rest else Inl AssertionFailed)"

section \<open>Configuration (src/lib/jconfiguration.c)\<close>

text \<open>
  A \<^verbatim>\<open>GKeyFile\<close> is GLib's parsed key file. The model keeps, per group and key, what
  each of the three GLib accessors used by the source finds: \<open>None\<close> when the key is
  absent (the string accessors then return \<^verbatim>\<open>NULL\<close>; the integer accessor returns 0).
  A present list may be empty.
\<close>

record GKeyFile =
  kf_integer :: "string \<Rightarrow> string \<Rightarrow> int option"
  kf_string :: "string \<Rightarrow> string \<Rightarrow> string option"
  kf_string_list :: "string \<Rightarrow> string \<Rightarrow> string list option"

definition g_key_file_get_integer :: "GKeyFile \<Rightarrow> string \<Rightarrow> string \<Rightarrow> int" where
  "g_key_file_get_integer kf grp k = (case kf_integer kf grp k of None \<Rightarrow> 0 | Some n \<Rightarrow> n)"

definition g_key_file_get_string :: "GKeyFile \<Rightarrow> string \<Rightarrow> string \<Rightarrow> string option" where
  "g_key_file_get_string kf grp k = kf_string kf grp k"

definition g_key_file_get_string_list :: "GKeyFile \<Rightarrow> string \<Rightarrow> string \<Rightarrow> string list option" where
  "g_key_file_get_string_list kf grp k = kf_string_list kf grp k"

text \<open>\<^verbatim>\<open>struct JConfiguration\<close>; the nested structs are flattened into prefixed fields.\<close>

record JConfiguration =
  servers_object :: "string list"
  servers_kv :: "string list"
  servers_object_len :: guint32
  servers_kv_len :: guint32
  cfg_object_backend :: string
  cfg_object_component :: string
  cfg_object_path :: string
  cfg_kv_backend :: string
  cfg_kv_component :: string
  cfg_kv_path :: string
  max_connections :: guint32
  cfg_ref_count :: int

text \<open>
  \<^verbatim>\<open>j_configuration_new_for_data\<close>: all nine values are fetched first; the test
  \<^verbatim>\<open>servers_object == NULL || servers_object[0] == NULL\<close> is "absent or empty".
  \<^verbatim>\<open>j_configuration_new\<close> calls it on a key file that it has loaded; in the search of
  the specification \<open>None\<close> stands for a file that does not load, for which there is no
  configuration.
\<close>

definition j_configuration_new_for_data :: "GKeyFile option \<Rightarrow> JConfiguration option" where
  "j_configuration_new_for_data key_file =
     (case key_file of
        None \<Rightarrow> None
      | Some kf \<Rightarrow>
          (let max_conn = g_key_file_get_integer kf ''clients'' ''max-connections'';
               srv_object = g_key_file_get_string_list kf ''servers'' ''object'';
               srv_kv = g_key_file_get_string_list kf ''servers'' ''kv'';
               obj_backend = g_key_file_get_string kf ''object'' ''backend'';
               obj_component = g_key_file_get_string kf ''object'' ''component'';
               obj_path = g_key_file_get_string kf ''object'' ''path'';
               k_backend = g_key_file_get_string kf ''kv'' ''backend'';
               k_component = g_key_file_get_string kf ''kv'' ''component'';
               k_path = g_key_file_get_string kf ''kv'' ''path''
           in if srv_object = None \<or> srv_object = Some []
                 \<or> srv_kv = None \<or> srv_kv = Some []
                 \<or> obj_backend = None
                 \<or> obj_component = None
                 \<or> obj_path = None
                 \<or> k_backend = None
                 \<or> k_component = None
                 \<or> k_path = None
              then None
              else Some \<lparr> servers_object = the srv_object,
                          servers_kv = the srv_kv,
                          servers_object_len = of_nat (length (the srv_object)),
                          servers_kv_len = of_nat (length (the srv_kv)),
                          cfg_object_backend = the obj_backend,
                          cfg_object_component = the obj_component,
                          cfg_object_path = the obj_path,
                          cfg_kv_backend = the k_backend,
                          cfg_kv_component = the k_component,
                          cfg_kv_path = the k_path,
                          max_connections = of_int max_conn,
                          cfg_ref_count = 1 \<rparr>))"

text \<open>
  The getters, on the configuration of a library that may not be initialised (\<open>None\<close>).
  The theorems below use them on configurations that exist; for a \<^verbatim>\<open>NULL\<close>
  configuration the value is the 0 that their \<^verbatim>\<open>g_return_val_if_fail\<close> returns where
  critical messages are logged.
\<close>

definition j_configuration_get_object_server_count :: "JConfiguration option \<Rightarrow> guint32" where
  "j_configuration_get_object_server_count configuration =
     (case configuration of None \<Rightarrow> 0 | Some c \<Rightarrow> servers_object_len c)"

definition j_configuration_get_kv_server_count :: "JConfiguration option \<Rightarrow> guint32" where
  "j_configuration_get_kv_server_count configuration =
     (case configuration of None \<Rightarrow> 0 | Some c \<Rightarrow> servers_kv_len c)"

definition j_configuration_get_max_connections :: "JConfiguration option \<Rightarrow> guint32" where
  "j_configuration_get_max_connections configuration =
     (case configuration of None \<Rightarrow> 0 | Some c \<Rightarrow> max_connections c)"

subsection \<open>Selecting the configuration file\<close>









subsection \<open>Initialisation (src/lib/jcommon.c, src/lib/jbackend.c)\<close>





section \<open>Handles (src/client/object/jobject.c, src/client/kv/jkv.c)\<close>

record JObject =
  obj_index :: guint32
  obj_namespace :: string
  obj_name :: string
  obj_ref_count :: int

record JKV =
  kv_index :: guint32
  kv_namespace :: string
  kv_key :: string
  kv_ref_count :: int




definition j_kv_new_for_index ::
  "glib_criticals \<Rightarrow> JConfiguration option \<Rightarrow> guint32 \<Rightarrow> string option \<Rightarrow> string option
     \<Rightarrow> fault + JKV option" where
  "j_kv_new_for_index criticals configuration index namespace key =
     g_return_val_if_fail criticals (namespace \<noteq> None) None
    (g_return_val_if_fail criticals (key \<noteq> None) None
    (g_return_val_if_fail criticals
       (index < j_configuration_get_kv_server_count configuration) None
       (Inr (Some \<lparr> kv_index = index, kv_namespace = the namespace, kv_key = the key,
                     kv_ref_count = 1 \<rparr>))))"

section \<open>The LevelDB library as the backend uses it\<close>

text \<open>
  Values are BSON documents, kept as their bytes (\<^verbatim>\<open>value->len\<close> is the length). A key
  is a byte string; a C string of the source is its bytes without the terminator, and
  \<open>NUL\<close> is the terminator.
\<close>

type_synonym bson_t = string

definition NUL :: char where
  "NUL = CHR 0x00"

text \<open>
  A database holds its entries in the order of LevelDB's bytewise comparator, which is
  the lexicographic order on byte strings. An iterator is the entries from its position
  on.
\<close>

type_synonym leveldb_t = "(string \<times> bson_t) list"
type_synonym leveldb_iterator_t = "(string \<times> bson_t) list"

datatype leveldb_writebatch_op = WB_Put string bson_t | WB_Delete string

type_synonym leveldb_writebatch_t = "leveldb_writebatch_op list"

record leveldb_writeoptions_t =
  wo_sync :: bool

definition leveldb_writeoptions_create :: leveldb_writeoptions_t where
  "leveldb_writeoptions_create = \<lparr> wo_sync = False \<rparr>"

definition leveldb_writeoptions_set_sync :: "leveldb_writeoptions_t \<Rightarrow> bool \<Rightarrow> leveldb_writeoptions_t" where
  "leveldb_writeoptions_set_sync options v = options \<lparr> wo_sync := v \<rparr>"

fun leveldb_put :: "string \<Rightarrow> bson_t \<Rightarrow> leveldb_t \<Rightarrow> leveldb_t" where
  "leveldb_put k v [] = [(k, v)]"
| "leveldb_put k v ((k', v') # es) =
     (if k < k' then (k, v) # (k', v') # es
      else if k = k' then (k, v) # es
      else (k', v') # leveldb_put k v es)"

definition leveldb_delete :: "string \<Rightarrow> leveldb_t \<Rightarrow> leveldb_t" where
  "leveldb_delete k db = filter (\<lambda>e. fst e \<noteq> k) db"

fun leveldb_apply :: "leveldb_writebatch_op \<Rightarrow> leveldb_t \<Rightarrow> leveldb_t" where
  "leveldb_apply (WB_Put k v) db = leveldb_put k v db"
| "leveldb_apply (WB_Delete k) db = leveldb_delete k db"

text \<open>\<^verbatim>\<open>leveldb_write\<close> applies the operations of a write batch in their order.\<close>

definition leveldb_write :: "leveldb_t \<Rightarrow> leveldb_writebatch_t \<Rightarrow> leveldb_t" where
  "leveldb_write db batch = fold leveldb_apply batch db"


definition leveldb_create_iterator :: "leveldb_t \<Rightarrow> leveldb_iterator_t option" where
  "leveldb_create_iterator db = Some db"

text \<open>\<^verbatim>\<open>leveldb_iter_seek\<close> moves to the first entry whose key is not below the target.\<close>

definition leveldb_iter_seek :: "leveldb_iterator_t \<Rightarrow> string \<Rightarrow> leveldb_iterator_t" where
  "leveldb_iter_seek it target = dropWhile (\<lambda>e. fst e < target) it"

definition leveldb_iter_valid :: "leveldb_iterator_t \<Rightarrow> bool" where
  "leveldb_iter_valid it = (it \<noteq> [])"

text \<open>Key and value at the position; they are read at a valid position only.\<close>

definition leveldb_iter_key :: "leveldb_iterator_t \<Rightarrow> string" where
  "leveldb_iter_key it = fst (hd it)"

definition leveldb_iter_value :: "leveldb_iterator_t \<Rightarrow> bson_t" where
  "leveldb_iter_value it = snd (hd it)"

fun leveldb_iter_next :: "leveldb_iterator_t \<Rightarrow> leveldb_iterator_t" where
  "leveldb_iter_next [] = []"
| "leveldb_iter_next (e # es) = es"

text \<open>
  \<^verbatim>\<open>g_str_has_prefix\<close> compares C strings: of the key's bytes it sees those before the
  first terminator.
\<close>

definition g_str_has_prefix :: "string \<Rightarrow> string \<Rightarrow> bool" where
  "g_str_has_prefix str pre = prefix pre (takeWhile (\<lambda>c. c \<noteq> NUL) str)"

section \<open>The LevelDB backend (src/backend/server/leveldb.c)\<close>

text \<open>
  Modelled from the spec: the enumeration \<^verbatim>\<open>JSemanticsSafety\<close> (\<^verbatim>\<open>jsemantics.h\<close> is not
  among the sources) has the three values of the safety axis.
\<close>

datatype JSemanticsSafety =
  J_SEMANTICS_SAFETY_NONE | J_SEMANTICS_SAFETY_NETWORK | J_SEMANTICS_SAFETY_STORAGE

record JLevelDBBatch =
  batch_ops :: leveldb_writebatch_t
  batch_namespace :: string
  batch_safety :: JSemanticsSafety

record JLevelDBIterator =
  it_iterator :: leveldb_iterator_t
  it_prefix :: string

text \<open>
  The file's globals after \<^verbatim>\<open>backend_init\<close>. \<open>write_calls\<close> lists the calls of
  \<^verbatim>\<open>leveldb_write\<close> so far, each with the write options it was given and its batch.
\<close>

record leveldb_state =
  backend_db :: leveldb_t
  backend_write_options :: leveldb_writeoptions_t
  backend_write_options_sync :: leveldb_writeoptions_t
  write_calls :: "(leveldb_writeoptions_t \<times> leveldb_writebatch_t) list"

text \<open>
  \<^verbatim>\<open>backend_init\<close>: \<open>leveldb_open\<close> gives the database at a path, or \<open>None\<close> when it
  cannot be opened; the function then returns \<^verbatim>\<open>FALSE\<close> (here \<open>None\<close>) and \<^verbatim>\<open>j_init\<close> does
  not go on.
\<close>

definition backend_init :: "(string \<Rightarrow> leveldb_t option) \<Rightarrow> string \<Rightarrow> leveldb_state option" where
  "backend_init leveldb_open path =
     (let write_options = leveldb_writeoptions_create;
          write_options_sync = leveldb_writeoptions_set_sync leveldb_writeoptions_create True
      in case leveldb_open path of
           None \<Rightarrow> None
         | Some db \<Rightarrow> Some \<lparr> backend_db = db,
                              backend_write_options = write_options,
                              backend_write_options_sync = write_options_sync,
                              write_calls = [] \<rparr>)"

definition backend_batch_start :: "string \<Rightarrow> JSemanticsSafety \<Rightarrow> bool \<times> JLevelDBBatch" where
  "backend_batch_start namespace safety =
     (True, \<lparr> batch_ops = [], batch_namespace = namespace, batch_safety = safety \<rparr>)"

definition backend_batch_execute :: "leveldb_state \<Rightarrow> JLevelDBBatch \<Rightarrow> bool \<times> leveldb_state" where
  "backend_batch_execute st batch =
     (let write_options =
            (if batch_safety batch = J_SEMANTICS_SAFETY_STORAGE
             then backend_write_options_sync st
             else backend_write_options st)
      in (True, st \<lparr> backend_db := leveldb_write (backend_db st) (batch_ops batch),
                      write_calls := write_calls st @ [(write_options, batch_ops batch)] \<rparr>))"

text \<open>The stored key is \<^verbatim>\<open>"<namespace>:<key>"\<close> with its terminator (\<^verbatim>\<open>strlen(nskey) + 1\<close>).\<close>

definition nskey :: "string \<Rightarrow> string \<Rightarrow> string" where
  "nskey namespace key = namespace @ '':'' @ key"

definition backend_put :: "JLevelDBBatch \<Rightarrow> string \<Rightarrow> bson_t \<Rightarrow> bool \<times> JLevelDBBatch" where
  "backend_put batch key v =
     (True, batch \<lparr> batch_ops :=
        batch_ops batch @ [WB_Put (nskey (batch_namespace batch) key @ [NUL]) v] \<rparr>)"

definition backend_delete :: "JLevelDBBatch \<Rightarrow> string \<Rightarrow> bool \<times> JLevelDBBatch" where
  "backend_delete batch key =
     (True, batch \<lparr> batch_ops :=
        batch_ops batch @ [WB_Delete (nskey (batch_namespace batch) key @ [NUL])] \<rparr>)"


definition backend_get_by_prefix ::
  "leveldb_state \<Rightarrow> string \<Rightarrow> string \<Rightarrow> bool \<times> JLevelDBIterator option" where
  "backend_get_by_prefix st namespace pre =
     (case leveldb_create_iterator (backend_db st) of
        None \<Rightarrow> (False, None)
      | Some it \<Rightarrow>
          (True, Some \<lparr> it_iterator = leveldb_iter_seek it (nskey namespace pre @ [NUL]),
                        it_prefix = nskey namespace pre \<rparr>))"

text \<open>
  \<^verbatim>\<open>backend_iterate\<close>: the result is the return value, what is stored in \<^verbatim>\<open>result_out\<close>,
  and the iterator afterwards, \<open>None\<close> once it has been freed (the \<^verbatim>\<open>out\<close> label).
\<close>

definition backend_iterate ::
  "JLevelDBIterator \<Rightarrow> bool \<times> bson_t option \<times> JLevelDBIterator option" where
  "backend_iterate iterator =
     (if leveldb_iter_valid (it_iterator iterator)
      then
        (if \<not> g_str_has_prefix (leveldb_iter_key (it_iterator iterator)) (it_prefix iterator)
         then (False, None, None)
         else (True, Some (leveldb_iter_value (it_iterator iterator)),
               Some (iterator \<lparr> it_iterator := leveldb_iter_next (it_iterator iterator) \<rparr>)))
      else (False, None, None))"

text \<open>A caller's loop: \<^verbatim>\<open>while (backend_iterate(it, &value))\<close>, collecting the values.\<close>

function iterate_all :: "JLevelDBIterator \<Rightarrow> bson_t list" where
  "iterate_all iterator =
     (case backend_iterate iterator of
        (ret, v, Some iterator') \<Rightarrow>
          (if ret then (case v of Some x \<Rightarrow> x # iterate_all iterator' | None \<Rightarrow> []) else [])
      | (ret, v, None) \<Rightarrow> [])"
  by pat_completeness auto
termination
  by (relation "measure (\<lambda>iterator. length (it_iterator iterator))")
    (auto simp: backend_iterate_def leveldb_iter_valid_def neq_Nil_conv split: if_splits)

declare iterate_all.simps [simp del]

text \<open>
  The key of namespace \<open>namespace\<close> that a stored key encodes, if it is one of that
  namespace.
\<close>

definition stored_key :: "string \<Rightarrow> string \<Rightarrow> string option" where
  "stored_key namespace e =
     (if prefix (namespace @ '':'') e \<and> e \<noteq> namespace @ '':'' \<and> last e = NUL
      then Some (butlast (drop (length namespace + 1) e))
      else None)"

text \<open>
  What \<^verbatim>\<open>get_by_prefix\<close> is to yield according to the specification: the values of the
  stored keys of the namespace that start with the prefix.
\<close>

definition spec_prefix_values :: "leveldb_t \<Rightarrow> string \<Rightarrow> string \<Rightarrow> bson_t list" where
  "spec_prefix_values db namespace pre =
     map snd (filter (\<lambda>e. case stored_key namespace (fst e) of
                             None \<Rightarrow> False
                           | Some k \<Rightarrow> prefix pre k) db)"

text \<open>
  The keys that \<^verbatim>\<open>backend_put\<close> writes are C strings with their terminator, and LevelDB
  keeps distinct keys in comparator order.
\<close>

definition key_ok :: "string \<Rightarrow> bool" where
  "key_ok e = (e \<noteq> [] \<and> last e = NUL \<and> NUL \<notin> set (butlast e))"

definition stored_keys_ok :: "leveldb_t \<Rightarrow> bool" where
  "stored_keys_ok db = (sorted_wrt (<) (map fst db) \<and> list_all key_ok (map fst db))"

text \<open>
  What holds of an iterator between the calls of \<^verbatim>\<open>backend_iterate\<close>: its remaining
  entries are stored keys in order, none of them below the target of the seek, and its
  prefix is a C string.
\<close>

definition iterator_inv :: "JLevelDBIterator \<Rightarrow> bool" where
  "iterator_inv iterator =
     (stored_keys_ok (it_iterator iterator)
      \<and> list_all (\<lambda>e. \<not> fst e < it_prefix iterator @ [NUL]) (it_iterator iterator)
      \<and> NUL \<notin> set (it_prefix iterator))"

text \<open>
  Filling a batch between \<^verbatim>\<open>backend_batch_start\<close> and \<^verbatim>\<open>backend_batch_execute\<close>: a key
  with a value is a \<^verbatim>\<open>backend_put\<close>, a key without one a \<^verbatim>\<open>backend_delete\<close>.
\<close>

fun backend_batch_add :: "string \<times> bson_t option \<Rightarrow> JLevelDBBatch \<Rightarrow> JLevelDBBatch" where
  "backend_batch_add (key, Some v) batch = snd (backend_put batch key v)"
| "backend_batch_add (key, None) batch = snd (backend_delete batch key)"

text \<open>The state after further batches have been executed.\<close>

definition backend_batches_execute :: "JLevelDBBatch list \<Rightarrow> leveldb_state \<Rightarrow> leveldb_state" where
  "backend_batches_execute batches st = fold (\<lambda>b s. snd (backend_batch_execute s b)) batches st"

section \<open>Semantics and messages\<close>

text \<open>
  Modelled from the spec: the semantics of a batch (\<^verbatim>\<open>jsemantics.c\<close> is not among the
  sources). Of its axes the code modelled here reads the safety only:
  \<^verbatim>\<open>j_semantics_get(semantics, J_SEMANTICS_SAFETY)\<close>.
\<close>

record JSemantics =
  sem_safety :: JSemanticsSafety

definition j_semantics_get_safety :: "JSemantics \<Rightarrow> JSemanticsSafety" where
  "j_semantics_get_safety semantics = sem_safety semantics"

text \<open>
  Modelled from the spec: the message codec (\<^verbatim>\<open>jmessage.c\<close> is not among the sources). A
  frame has an opcode, flags, the count of its operations and the fields appended to it,
  in order; bulk data is sent after the frame. The flag \<^verbatim>\<open>SAFETY_NETWORK\<close> says that the
  receiver must reply, and \<^verbatim>\<open>j_message_set_safety\<close> sets it for a safety of \<^verbatim>\<open>network\<close> or
  \<^verbatim>\<open>storage\<close>.
\<close>

datatype JMessageType =
  J_MESSAGE_OBJECT_CREATE | J_MESSAGE_OBJECT_DELETE | J_MESSAGE_OBJECT_READ
| J_MESSAGE_OBJECT_WRITE | J_MESSAGE_OBJECT_STATUS
| J_MESSAGE_KV_PUT | J_MESSAGE_KV_DELETE | J_MESSAGE_KV_GET

datatype JMessageFlags = J_MESSAGE_FLAGS_SAFETY_NETWORK

datatype message_field = Field_n string | Field_4 guint32 | Field_8 guint64

record JMessage =
  msg_op :: JMessageType
  msg_flags :: "JMessageFlags set"
  msg_count :: nat
  msg_fields :: "message_field list"
  msg_bulk :: "string list"

definition j_message_new :: "JMessageType \<Rightarrow> JMessage" where
  "j_message_new op =
     \<lparr> msg_op = op, msg_flags = {}, msg_count = 0, msg_fields = [], msg_bulk = [] \<rparr>"

definition j_message_set_safety :: "JMessage \<Rightarrow> JSemantics \<Rightarrow> JMessage" where
  "j_message_set_safety message semantics =
     (case j_semantics_get_safety semantics of
        J_SEMANTICS_SAFETY_NONE \<Rightarrow> message
      | J_SEMANTICS_SAFETY_NETWORK \<Rightarrow>
          message \<lparr> msg_flags := insert J_MESSAGE_FLAGS_SAFETY_NETWORK (msg_flags message) \<rparr>
      | J_SEMANTICS_SAFETY_STORAGE \<Rightarrow>
          message \<lparr> msg_flags := insert J_MESSAGE_FLAGS_SAFETY_NETWORK (msg_flags message) \<rparr>)"

definition j_message_get_flags :: "JMessage \<Rightarrow> JMessageFlags set" where
  "j_message_get_flags message = msg_flags message"

definition j_message_add_operation :: "JMessage \<Rightarrow> JMessage" where
  "j_message_add_operation message = message \<lparr> msg_count := msg_count message + 1 \<rparr>"

definition j_message_append_n :: "JMessage \<Rightarrow> string \<Rightarrow> JMessage" where
  "j_message_append_n message bytes =
     message \<lparr> msg_fields := msg_fields message @ [Field_n bytes] \<rparr>"

definition j_message_append_4 :: "JMessage \<Rightarrow> guint32 \<Rightarrow> JMessage" where
  "j_message_append_4 message v =
     message \<lparr> msg_fields := msg_fields message @ [Field_4 v] \<rparr>"



text \<open>
  Reading a received frame field by field; \<open>None\<close> when the frame does not hold the field
  that is read.
\<close>

fun j_message_get_4 :: "message_field list \<Rightarrow> (guint32 \<times> message_field list) option" where
  "j_message_get_4 (Field_4 v # rest) = Some (v, rest)"
| "j_message_get_4 _ = None"

fun j_message_get_8 :: "message_field list \<Rightarrow> (guint64 \<times> message_field list) option" where
  "j_message_get_8 (Field_8 v # rest) = Some (v, rest)"
| "j_message_get_8 _ = None"

fun j_message_get_n :: "message_field list \<Rightarrow> nat \<Rightarrow> (string \<times> message_field list) option" where
  "j_message_get_n (Field_n bytes # rest) n =
     (if length bytes = n then Some (bytes, rest) else None)"
| "j_message_get_n _ n = None"

section \<open>The client's surroundings\<close>

text \<open>
  What the execute functions act on. \<open>local_object\<close> and \<open>local_kv\<close> are the states of
  the backends loaded into the client, if any. \<open>documents\<close>, \<open>mem_u64\<close> and \<open>mem_i64\<close> are
  the caller's memory by address: the documents of \<^verbatim>\<open>j_kv_get\<close>, the byte counters and
  sizes, the modification times. \<open>calls\<close> lists the callbacks invoked, each with its
  user data and the document passed. \<open>incoming\<close> holds the frames the server sends, in
  order, and \<open>net\<close> lists what the client did on the network.
\<close>

datatype net_event =
  Pop_object guint32 | Push_object guint32
| Pop_kv guint32 | Push_kv guint32
| Send JMessage | Receive JMessage

record ('os, 'ks) world =
  local_object :: 'os
  local_kv :: 'ks
  documents :: "nat \<Rightarrow> bson_t option"
  mem_u64 :: "nat \<Rightarrow> guint64"
  mem_i64 :: "nat \<Rightarrow> gint64"
  calls :: "(nat \<times> nat \<times> bson_t) list"
  incoming :: "JMessage list"
  net :: "net_event list"

definition j_connection_pool_pop_kv :: "guint32 \<Rightarrow> ('os, 'ks) world \<Rightarrow> ('os, 'ks) world" where
  "j_connection_pool_pop_kv index w = w \<lparr> net := net w @ [Pop_kv index] \<rparr>"

definition j_connection_pool_push_kv :: "guint32 \<Rightarrow> ('os, 'ks) world \<Rightarrow> ('os, 'ks) world" where
  "j_connection_pool_push_kv index w = w \<lparr> net := net w @ [Push_kv index] \<rparr>"

definition j_connection_pool_pop_object :: "guint32 \<Rightarrow> ('os, 'ks) world \<Rightarrow> ('os, 'ks) world" where
  "j_connection_pool_pop_object index w = w \<lparr> net := net w @ [Pop_object index] \<rparr>"

definition j_connection_pool_push_object :: "guint32 \<Rightarrow> ('os, 'ks) world \<Rightarrow> ('os, 'ks) world" where
  "j_connection_pool_push_object index w = w \<lparr> net := net w @ [Push_object index] \<rparr>"

definition j_message_send :: "JMessage \<Rightarrow> ('os, 'ks) world \<Rightarrow> ('os, 'ks) world" where
  "j_message_send message w = w \<lparr> net := net w @ [Send message] \<rparr>"

text \<open>\<^verbatim>\<open>j_message_receive\<close> takes the next frame; without one it does not return.\<close>

definition j_message_receive :: "('os, 'ks) world \<Rightarrow> fault + (JMessage \<times> ('os, 'ks) world)" where
  "j_message_receive w =
     (case incoming w of
        [] \<Rightarrow> Inl NoReply
      | reply # later \<Rightarrow> Inr (reply, w \<lparr> incoming := later, net := net w @ [Receive reply] \<rparr>))"


section \<open>The kv client (src/client/kv/jkv.c)\<close>

text \<open>
  \<^verbatim>\<open>struct JKVOperation\<close>, one record per member of its union. A pointer of the caller is
  its address, \<open>None\<close> for \<^verbatim>\<open>NULL\<close>; a callback is the number that names it.
\<close>

record JKVOperation_put =
  put_kv :: JKV
  put_value :: bson_t

record JKVOperation_get =
  get_kv :: JKV
  get_value :: "nat option"
  get_func :: "nat option"
  get_data :: nat

text \<open>
  The kv part of \<^verbatim>\<open>JBackend\<close>, as far as the execute functions call it. \<open>kv_get\<close> gives
  \<open>Some v\<close> when the backend returns \<^verbatim>\<open>TRUE\<close> having stored \<open>v\<close> in its result, and
  \<open>None\<close> when it returns \<^verbatim>\<open>FALSE\<close> and stores nothing, as \<^verbatim>\<open>backend_get\<close> of the LevelDB
  backend does.
\<close>

record ('b, 'ks) kv_backend =
  kv_batch_start :: "string \<Rightarrow> JSemanticsSafety \<Rightarrow> bool \<times> 'b"
  kv_batch_execute :: "'ks \<Rightarrow> 'b \<Rightarrow> bool \<times> 'ks"
  kv_put :: "'b \<Rightarrow> string \<Rightarrow> bson_t \<Rightarrow> bool \<times> 'b"
  kv_delete :: "'b \<Rightarrow> string \<Rightarrow> bool \<times> 'b"
  kv_get :: "'ks \<Rightarrow> string \<Rightarrow> string \<Rightarrow> bson_t option"


text \<open>
  \<^verbatim>\<open>j_backend_kv_get\<close> (src/lib/jbackend.c) with the caller's document as destination: it
  refuses a \<^verbatim>\<open>NULL\<close> destination, with the \<^verbatim>\<open>FALSE\<close> that its \<^verbatim>\<open>g_return_val_if_fail\<close>
  returns where critical messages are logged.
\<close>

definition j_backend_kv_get ::
  "('b, 'ks) kv_backend \<Rightarrow> string \<Rightarrow> string \<Rightarrow> nat option \<Rightarrow> ('os, 'ks) world
     \<Rightarrow> bool \<times> ('os, 'ks) world" where
  "j_backend_kv_get backend namespace key dest w =
     (case dest of
        None \<Rightarrow> (False, w)
      | Some a \<Rightarrow>
          (case kv_get backend (local_kv w) namespace key of
             None \<Rightarrow> (False, w)
           | Some v \<Rightarrow> (True, w \<lparr> documents := (documents w)(a := Some v) \<rparr>)))"

subsection \<open>\<^verbatim>\<open>j_kv_put_exec\<close>\<close>

text \<open>The body of the loop, with a local backend and without.\<close>

definition j_kv_put_exec_local ::
  "('b, 'ks) kv_backend \<Rightarrow> JKVOperation_put \<Rightarrow> bool \<times> 'b \<Rightarrow> bool \<times> 'b" where
  "j_kv_put_exec_local backend kop acc =
     (case acc of (ret, kv_batch) \<Rightarrow>
        (case kv_put backend kv_batch (kv_key (put_kv kop)) (put_value kop) of
           (r, kv_batch') \<Rightarrow> (r \<and> ret, kv_batch')))"

definition j_kv_put_exec_remote :: "JKVOperation_put \<Rightarrow> JMessage \<Rightarrow> JMessage" where
  "j_kv_put_exec_remote kop message =
     j_message_append_n
       (j_message_append_4
          (j_message_append_n (j_message_add_operation message) (kv_key (put_kv kop) @ [NUL]))
          (of_nat (length (put_value kop))))
       (put_value kop)"

definition j_kv_put_exec ::
  "('b, 'ks) kv_backend option \<Rightarrow> JKVOperation_put list \<Rightarrow> JSemantics \<Rightarrow> ('os, 'ks) world
     \<Rightarrow> fault + (bool \<times> ('os, 'ks) world)" where
  "j_kv_put_exec kv_backend operations semantics w =
     (case operations of
        [] \<Rightarrow> Inl AssertionFailed
      | first # others \<Rightarrow>
          (let namespace = kv_namespace (put_kv first);
               index = kv_index (put_kv first);
               safety = j_semantics_get_safety semantics
           in case kv_backend of
                Some backend \<Rightarrow>
                  (case fold (j_kv_put_exec_local backend) operations
                          (kv_batch_start backend namespace safety) of
                     (ret, kv_batch) \<Rightarrow>
                       (case kv_batch_execute backend (local_kv w) kv_batch of
                          (r, st) \<Rightarrow> Inr (r \<and> ret, w \<lparr> local_kv := st \<rparr>)))
              | None \<Rightarrow>
                  (let message =
                         fold j_kv_put_exec_remote operations
                           (j_message_append_n
                              (j_message_set_safety (j_message_new J_MESSAGE_KV_PUT) semantics)
                              (namespace @ [NUL]));
                       w1 = j_message_send message (j_connection_pool_pop_kv index w)
                   in if J_MESSAGE_FLAGS_SAFETY_NETWORK \<in> j_message_get_flags message
                      then (case j_message_receive w1 of
                              Inl f \<Rightarrow> Inl f
                            | Inr (reply, w2) \<Rightarrow> Inr (True, j_connection_pool_push_kv index w2))
                      else Inr (True, j_connection_pool_push_kv index w1))))"

subsection \<open>\<^verbatim>\<open>j_kv_get_exec\<close>\<close>

text \<open>
  The first loop with a local backend. In the callback branch the document is passed to
  the callback only if \<^verbatim>\<open>ret\<close>, the conjunction so far, is still true.
\<close>

definition j_kv_get_exec_local ::
  "('b, 'ks) kv_backend \<Rightarrow> JKVOperation_get \<Rightarrow> bool \<times> ('os, 'ks) world
     \<Rightarrow> bool \<times> ('os, 'ks) world" where
  "j_kv_get_exec_local backend kop acc =
     (case acc of (ret, w) \<Rightarrow>
        (case get_func kop of
           Some func \<Rightarrow>
             (case kv_get backend (local_kv w)
                     (kv_namespace (get_kv kop)) (kv_key (get_kv kop)) of
                None \<Rightarrow> (False, w)
              | Some tmp \<Rightarrow>
                  if ret
                  then (True, w \<lparr> calls := calls w @ [(func, get_data kop, tmp)] \<rparr>)
                  else (False, w))
         | None \<Rightarrow>
             (case j_backend_kv_get backend
                     (kv_namespace (get_kv kop)) (kv_key (get_kv kop)) (get_value kop) w of
                (r, w') \<Rightarrow> (r \<and> ret, w'))))"

definition j_kv_get_exec_remote :: "JKVOperation_get \<Rightarrow> JMessage \<Rightarrow> JMessage" where
  "j_kv_get_exec_remote kop message =
     j_message_append_n (j_message_add_operation message) (kv_key (get_kv kop) @ [NUL])"

text \<open>
  The second loop, over the operations and the fields of the reply: a length of 0 only
  clears \<^verbatim>\<open>ret\<close>; a positive length is followed by the document, which goes to the
  callback or is copied to the caller's document.
\<close>

fun j_kv_get_exec_reply ::
  "JKVOperation_get list \<Rightarrow> message_field list \<Rightarrow> bool \<Rightarrow> ('os, 'ks) world
     \<Rightarrow> fault + (bool \<times> ('os, 'ks) world)" where
  "j_kv_get_exec_reply [] reply ret w = Inr (ret, w)"
| "j_kv_get_exec_reply (kop # kops) reply ret w =
     (case j_message_get_4 reply of
        None \<Rightarrow> Inl BadReply
      | Some (len, reply1) \<Rightarrow>
          if 0 < len
          then (case j_message_get_n reply1 (unat len) of
                  None \<Rightarrow> Inl BadReply
                | Some (data, reply2) \<Rightarrow>
                    (case get_func kop of
                       Some func \<Rightarrow>
                         j_kv_get_exec_reply kops reply2 (0 < len \<and> ret)
                           (w \<lparr> calls := calls w @ [(func, get_data kop, data)] \<rparr>)
                     | None \<Rightarrow>
                         (case get_value kop of
                            None \<Rightarrow> Inl NullPointer
                          | Some a \<Rightarrow>
                              j_kv_get_exec_reply kops reply2 (0 < len \<and> ret)
                                (w \<lparr> documents := (documents w)(a := Some data) \<rparr>))))
          else j_kv_get_exec_reply kops reply1 (0 < len \<and> ret) w)"

definition j_kv_get_exec ::
  "('b, 'ks) kv_backend option \<Rightarrow> JKVOperation_get list \<Rightarrow> JSemantics \<Rightarrow> ('os, 'ks) world
     \<Rightarrow> fault + (bool \<times> ('os, 'ks) world)" where
  "j_kv_get_exec kv_backend operations semantics w =
     (case operations of
        [] \<Rightarrow> Inl AssertionFailed
      | first # others \<Rightarrow>
          (let namespace = kv_namespace (get_kv first);
               index = kv_index (get_kv first)
           in case kv_backend of
                Some backend \<Rightarrow> Inr (fold (j_kv_get_exec_local backend) operations (True, w))
              | None \<Rightarrow>
                  (let message =
                         fold j_kv_get_exec_remote operations
                           (j_message_append_n
                              (j_message_set_safety (j_message_new J_MESSAGE_KV_GET) semantics)
                              (namespace @ [NUL]));
                       w1 = j_message_send message (j_connection_pool_pop_kv index w)
                   in case j_message_receive w1 of
                        Inl f \<Rightarrow> Inl f
                      | Inr (reply, w2) \<Rightarrow>
                          (case j_kv_get_exec_reply operations (msg_fields reply) True w2 of
                             Inl f \<Rightarrow> Inl f
                           | Inr (ret, w3) \<Rightarrow> Inr (ret, j_connection_pool_push_kv index w3)))))"

subsection \<open>Executing a batch\<close>




section \<open>The object client (src/client/object/jobject.c)\<close>

text \<open>
  \<^verbatim>\<open>struct JObjectOperation\<close>, one record per member of its union. The caller's counters
  and results are addresses into the caller's memory (\<open>None\<close> for \<^verbatim>\<open>NULL\<close>); the data to
  write is kept as its bytes, the buffer to read into as its address.
\<close>

record JObjectOperation_status =
  status_object :: JObject
  status_modification_time :: "nat option"
  status_size :: "nat option"

record JObjectOperation_read =
  read_object :: JObject
  read_data :: nat
  read_length :: guint64
  read_offset :: guint64
  read_bytes_read :: nat

record JObjectOperation_write =
  write_object :: JObject
  write_data :: string
  write_length :: guint64
  write_offset :: guint64
  write_bytes_written :: nat

text \<open>
  The object part of \<^verbatim>\<open>JBackend\<close>, as far as the execute functions modelled here call
  it. No object backend is among the sources, so the entries are arbitrary functions of
  the backend's state. \<open>ob_create\<close> and \<open>ob_open\<close> give what the caller's handle holds
  after the call, \<open>None\<close> for \<^verbatim>\<open>NULL\<close>. \<open>ob_status\<close> gives what it stores in
  \<^verbatim>\<open>*modification_time\<close> and \<^verbatim>\<open>*size\<close>, if it stores anything; \<open>ob_write\<close> is given the
  value of \<^verbatim>\<open>*bytes_written\<close> and gives the value it leaves there.
\<close>

record ('h, 'os) object_backend =
  ob_create :: "string \<Rightarrow> string \<Rightarrow> 'os \<Rightarrow> bool \<times> 'h option \<times> 'os"
  ob_open :: "string \<Rightarrow> string \<Rightarrow> 'os \<Rightarrow> bool \<times> 'h option \<times> 'os"
  ob_delete :: "'h \<Rightarrow> 'os \<Rightarrow> bool \<times> 'os"
  ob_close :: "'h \<Rightarrow> 'os \<Rightarrow> bool \<times> 'os"
  ob_status :: "'h \<Rightarrow> 'os \<Rightarrow> bool \<times> (gint64 \<times> guint64) option \<times> 'os"
  ob_write :: "'h \<Rightarrow> string \<Rightarrow> guint64 \<Rightarrow> guint64 \<Rightarrow> guint64 \<Rightarrow> 'os \<Rightarrow> bool \<times> guint64 \<times> 'os"

text \<open>
  A \<^verbatim>\<open>while (j_list_iterator_next(it))\<close> loop whose body can abort the process: the body
  is run for each element in order, on the state the previous one left, and the first
  abort ends the run.
\<close>

fun j_list_iterate :: "('a \<Rightarrow> 's \<Rightarrow> fault + 's) \<Rightarrow> 'a list \<Rightarrow> 's \<Rightarrow> fault + 's" where
  "j_list_iterate body [] s = Inr s"
| "j_list_iterate body (x # xs) s =
     (case body x s of
        Inl f \<Rightarrow> Inl f
      | Inr s' \<Rightarrow> j_list_iterate body xs s')"

text \<open>
  The wrappers of src/lib/jbackend.c. \<^verbatim>\<open>j_backend_object_create\<close> and
  \<^verbatim>\<open>j_backend_object_open\<close> check the backend, the two strings and the address of the
  caller's handle; the execute functions pass a loaded object backend, the strings of an
  object and the address of a local variable, so the checks hold and the backend is
  called.
\<close>

definition j_backend_object_create ::
  "('h, 'os) object_backend \<Rightarrow> string \<Rightarrow> string \<Rightarrow> 'os \<Rightarrow> bool \<times> 'h option \<times> 'os" where
  "j_backend_object_create backend namespace path st = ob_create backend namespace path st"

definition j_backend_object_open ::
  "('h, 'os) object_backend \<Rightarrow> string \<Rightarrow> string \<Rightarrow> 'os \<Rightarrow> bool \<times> 'h option \<times> 'os" where
  "j_backend_object_open backend namespace path st = ob_open backend namespace path st"

text \<open>
  The wrappers that take a handle check it with \<^verbatim>\<open>g_return_val_if_fail (data != NULL,
  FALSE)\<close> before they call the backend: for a \<^verbatim>\<open>NULL\<close> handle the backend is not called,
  and the wrapper returns \<^verbatim>\<open>FALSE\<close> or the process is aborted, as GLib treats critical
  messages. \<^verbatim>\<open>j_backend_object_status\<close> checks its two destinations in the same way.
\<close>

definition j_backend_object_delete ::
  "glib_criticals \<Rightarrow> ('h, 'os) object_backend \<Rightarrow> 'h option \<Rightarrow> 'os \<Rightarrow> fault + bool \<times> 'os" where
  "j_backend_object_delete criticals backend data st =
     g_return_val_if_fail criticals (data \<noteq> None) (False, st)
       (Inr (ob_delete backend (the data) st))"

definition j_backend_object_close ::
  "glib_criticals \<Rightarrow> ('h, 'os) object_backend \<Rightarrow> 'h option \<Rightarrow> 'os \<Rightarrow> fault + bool \<times> 'os" where
  "j_backend_object_close criticals backend data st =
     g_return_val_if_fail criticals (data \<noteq> None) (False, st)
       (Inr (ob_close backend (the data) st))"

definition j_backend_object_status ::
  "glib_criticals \<Rightarrow> ('h, 'os) object_backend \<Rightarrow> 'h option \<Rightarrow> nat option \<Rightarrow> nat option
     \<Rightarrow> ('os, 'ks) world \<Rightarrow> fault + bool \<times> ('os, 'ks) world" where
  "j_backend_object_status criticals backend data modification_time size_out w =
     g_return_val_if_fail criticals (data \<noteq> None) (False, w)
    (g_return_val_if_fail criticals (modification_time \<noteq> None) (False, w)
    (g_return_val_if_fail criticals (size_out \<noteq> None) (False, w)
       (case ob_status backend (the data) (local_object w) of
          (r, None, st) \<Rightarrow> Inr (r, w \<lparr> local_object := st \<rparr>)
        | (r, Some (t, s), st) \<Rightarrow>
            Inr (r, w \<lparr> local_object := st,
                        mem_i64 := (mem_i64 w)(the modification_time := t),
                        mem_u64 := (mem_u64 w)(the size_out := s) \<rparr>))))"


text \<open>
  The request frame of the runs that name one object per operation (create, delete,
  status): the namespace, then per operation the name.
\<close>

definition j_object_name_exec_remote :: "JObject \<Rightarrow> JMessage \<Rightarrow> JMessage" where
  "j_object_name_exec_remote object message =
     j_message_append_n (j_message_add_operation message) (obj_name object @ [NUL])"

subsection \<open>\<^verbatim>\<open>j_object_create_exec\<close>\<close>

text \<open>
  The loop body with a local backend: \<^verbatim>\<open>ret = create(...) && ret; ret = close(...) && ret\<close>.
  Both wrappers are called whatever \<^verbatim>\<open>ret\<close> is. The first parameter of the execute
  functions says how GLib treats critical messages.
\<close>

definition j_object_create_exec_local ::
  "glib_criticals \<Rightarrow> ('h, 'os) object_backend \<Rightarrow> JObject \<Rightarrow> bool \<times> 'os
     \<Rightarrow> fault + bool \<times> 'os" where
  "j_object_create_exec_local criticals backend object acc =
     (case acc of (ret, st) \<Rightarrow>
        (case j_backend_object_create backend (obj_namespace object) (obj_name object) st of
           (r1, object_handle, st1) \<Rightarrow>
             (case j_backend_object_close criticals backend object_handle st1 of
                Inl f \<Rightarrow> Inl f
              | Inr (r2, st2) \<Rightarrow> Inr (r2 \<and> (r1 \<and> ret), st2))))"

text \<open>In the function \<^verbatim>\<open>ret\<close> starts as \<^verbatim>\<open>FALSE\<close>.\<close>

definition j_object_create_exec ::
  "glib_criticals \<Rightarrow> ('h, 'os) object_backend option \<Rightarrow> JObject list \<Rightarrow> JSemantics
     \<Rightarrow> ('os, 'ks) world \<Rightarrow> fault + (bool \<times> ('os, 'ks) world)" where
  "j_object_create_exec criticals object_backend operations semantics w =
     (case operations of
        [] \<Rightarrow> Inl AssertionFailed
      | first # others \<Rightarrow>
          (let namespace = obj_namespace first;
               index = obj_index first
           in case object_backend of
                Some backend \<Rightarrow>
                  (case j_list_iterate (j_object_create_exec_local criticals backend)
                          operations (False, local_object w) of
                     Inl f \<Rightarrow> Inl f
                   | Inr (ret, st) \<Rightarrow> Inr (ret, w \<lparr> local_object := st \<rparr>))
              | None \<Rightarrow>
                  (let message =
                         fold j_object_name_exec_remote operations
                           (j_message_append_n
                              (j_message_set_safety (j_message_new J_MESSAGE_OBJECT_CREATE)
                                 semantics)
                              (namespace @ [NUL]));
                       w1 = j_message_send message (j_connection_pool_pop_object index w)
                   in if J_MESSAGE_FLAGS_SAFETY_NETWORK \<in> j_message_get_flags message
                      then (case j_message_receive w1 of
                              Inl f \<Rightarrow> Inl f
                            | Inr (reply, w2) \<Rightarrow>
                                Inr (False, j_connection_pool_push_object index w2))
                      else Inr (False, j_connection_pool_push_object index w1))))"

subsection \<open>\<^verbatim>\<open>j_object_delete_exec\<close>\<close>

definition j_object_delete_exec_local ::
  "glib_criticals \<Rightarrow> ('h, 'os) object_backend \<Rightarrow> JObject \<Rightarrow> bool \<times> 'os
     \<Rightarrow> fault + bool \<times> 'os" where
  "j_object_delete_exec_local criticals backend object acc =
     (case acc of (ret, st) \<Rightarrow>
        (case j_backend_object_open backend (obj_namespace object) (obj_name object) st of
           (r1, object_handle, st1) \<Rightarrow>
             (case j_backend_object_delete criticals backend object_handle st1 of
                Inl f \<Rightarrow> Inl f
              | Inr (r2, st2) \<Rightarrow> Inr (r2 \<and> (r1 \<and> ret), st2))))"

definition j_object_delete_exec ::
  "glib_criticals \<Rightarrow> ('h, 'os) object_backend option \<Rightarrow> JObject list \<Rightarrow> JSemantics
     \<Rightarrow> ('os, 'ks) world \<Rightarrow> fault + (bool \<times> ('os, 'ks) world)" where
  "j_object_delete_exec criticals object_backend operations semantics w =
     (case operations of
        [] \<Rightarrow> Inl AssertionFailed
      | first # others \<Rightarrow>
          (let namespace = obj_namespace first;
               index = obj_index first
           in case object_backend of
                Some backend \<Rightarrow>
                  (case j_list_iterate (j_object_delete_exec_local criticals backend)
                          operations (False, local_object w) of
                     Inl f \<Rightarrow> Inl f
                   | Inr (ret, st) \<Rightarrow> Inr (ret, w \<lparr> local_object := st \<rparr>))
              | None \<Rightarrow>
                  (let message =
                         fold j_object_name_exec_remote operations
                           (j_message_append_n
                              (j_message_set_safety (j_message_new J_MESSAGE_OBJECT_DELETE)
                                 semantics)
                              (namespace @ [NUL]));
                       w1 = j_message_send message (j_connection_pool_pop_object index w)
                   in if J_MESSAGE_FLAGS_SAFETY_NETWORK \<in> j_message_get_flags message
                      then (case j_message_receive w1 of
                              Inl f \<Rightarrow> Inl f
                            | Inr (reply, w2) \<Rightarrow>
                                Inr (False, j_connection_pool_push_object index w2))
                      else Inr (False, j_connection_pool_push_object index w1))))"

subsection \<open>\<^verbatim>\<open>j_object_status_exec\<close>\<close>

definition j_object_status_exec_local ::
  "glib_criticals \<Rightarrow> ('h, 'os) object_backend \<Rightarrow> JObjectOperation_status
     \<Rightarrow> bool \<times> ('os, 'ks) world \<Rightarrow> fault + bool \<times> ('os, 'ks) world" where
  "j_object_status_exec_local criticals backend operation acc =
     (case acc of (ret, w) \<Rightarrow>
        (case j_backend_object_open backend (obj_namespace (status_object operation))
                (obj_name (status_object operation)) (local_object w) of
           (r1, object_handle, st1) \<Rightarrow>
             (case j_backend_object_status criticals backend object_handle
                     (status_modification_time operation) (status_size operation)
                     (w \<lparr> local_object := st1 \<rparr>) of
                Inl f \<Rightarrow> Inl f
              | Inr (r2, w2) \<Rightarrow>
                  (case j_backend_object_close criticals backend object_handle
                          (local_object w2) of
                     Inl f \<Rightarrow> Inl f
                   | Inr (r3, st3) \<Rightarrow>
                       Inr (r3 \<and> (r2 \<and> (r1 \<and> ret)), w2 \<lparr> local_object := st3 \<rparr>)))))"

text \<open>The loop over the reply: two 8-byte fields per operation, stored through the pointers.\<close>

fun j_object_status_exec_reply ::
  "JObjectOperation_status list \<Rightarrow> message_field list \<Rightarrow> ('os, 'ks) world
     \<Rightarrow> fault + ('os, 'ks) world" where
  "j_object_status_exec_reply [] reply w = Inr w"
| "j_object_status_exec_reply (operation # operations) reply w =
     (case j_message_get_8 reply of
        None \<Rightarrow> Inl BadReply
      | Some (modification_time_, reply1) \<Rightarrow>
          (case j_message_get_8 reply1 of
             None \<Rightarrow> Inl BadReply
           | Some (size_, reply2) \<Rightarrow>
               (case status_modification_time operation of
                  None \<Rightarrow> Inl NullPointer
                | Some mt \<Rightarrow>
                    (case status_size operation of
                       None \<Rightarrow> Inl NullPointer
                     | Some sz \<Rightarrow>
                         j_object_status_exec_reply operations reply2
                           (w \<lparr> mem_i64 := (mem_i64 w)(mt := modification_time_),
                                 mem_u64 := (mem_u64 w)(sz := size_) \<rparr>)))))"

definition j_object_status_exec ::
  "glib_criticals \<Rightarrow> ('h, 'os) object_backend option \<Rightarrow> JObjectOperation_status list
     \<Rightarrow> JSemantics \<Rightarrow> ('os, 'ks) world \<Rightarrow> fault + (bool \<times> ('os, 'ks) world)" where
  "j_object_status_exec criticals object_backend operations semantics w =
     (case operations of
        [] \<Rightarrow> Inl NullPointer
      | first # others \<Rightarrow>
          (let namespace = obj_namespace (status_object first);
               index = obj_index (status_object first)
           in case object_backend of
                Some backend \<Rightarrow>
                  j_list_iterate (j_object_status_exec_local criticals backend) operations
                    (False, w)
              | None \<Rightarrow>
                  (let message =
                         fold (\<lambda>operation. j_object_name_exec_remote (status_object operation))
                           operations
                           (j_message_append_n
                              (j_message_set_safety (j_message_new J_MESSAGE_OBJECT_STATUS)
                                 semantics)
                              (namespace @ [NUL]));
                       w1 = j_message_send message (j_connection_pool_pop_object index w)
                   in case j_message_receive w1 of
                        Inl f \<Rightarrow> Inl f
                      | Inr (reply, w2) \<Rightarrow>
                          (case j_object_status_exec_reply operations (msg_fields reply) w2 of
                             Inl f \<Rightarrow> Inl f
                           | Inr w3 \<Rightarrow>
                               Inr (False, j_connection_pool_push_object index w3)))))"

subsection \<open>\<^verbatim>\<open>j_object_write_exec\<close>\<close>






subsection \<open>Enqueueing reads and writes\<close>

text \<open>
  Modelled from the spec: a batch (\<^verbatim>\<open>jbatch.c\<close> and \<^verbatim>\<open>joperation.c\<close> are not among the
  sources) is its semantics and its operations in insertion order; \<^verbatim>\<open>j_batch_add\<close>
  appends. An operation is its data; the constructor stands for its execute function.
\<close>

datatype JOperation =
  Operation_object_create JObject
| Operation_object_delete JObject
| Operation_object_read JObjectOperation_read
| Operation_object_write JObjectOperation_write
| Operation_object_status JObjectOperation_status
| Operation_kv_put JKVOperation_put
| Operation_kv_delete JKV
| Operation_kv_get JKVOperation_get

record JBatch =
  batch_semantics :: JSemantics
  batch_list :: "JOperation list"

definition j_batch_add :: "JBatch \<Rightarrow> JOperation \<Rightarrow> JBatch" where
  "j_batch_add batch operation = batch \<lparr> batch_list := batch_list batch @ [operation] \<rparr>"

text \<open>
  \<^verbatim>\<open>j_object_read\<close> and \<^verbatim>\<open>j_object_write\<close>. The result is the batch and the caller's
  memory after the call; a failed \<^verbatim>\<open>g_return_if_fail\<close> has both as they were as its
  value. The first parameter says how GLib treats critical messages. The
  reference taken by \<^verbatim>\<open>j_object_ref\<close> only changes the handle's reference count, which
  is not followed here.
\<close>

definition j_object_read ::
  "glib_criticals \<Rightarrow> JObject option \<Rightarrow> nat option \<Rightarrow> guint64 \<Rightarrow> guint64 \<Rightarrow> nat option
     \<Rightarrow> JBatch \<Rightarrow> ('os, 'ks) world \<Rightarrow> fault + (JBatch \<times> ('os, 'ks) world)" where
  "j_object_read criticals object data len offset bytes_read batch w =
     g_return_val_if_fail criticals (object \<noteq> None) (batch, w)
    (g_return_val_if_fail criticals (data \<noteq> None) (batch, w)
    (g_return_val_if_fail criticals (0 < len) (batch, w)
    (g_return_val_if_fail criticals (bytes_read \<noteq> None) (batch, w)
       (Inr (j_batch_add batch
               (Operation_object_read
                  \<lparr> read_object = the object, read_data = the data, read_length = len,
                    read_offset = offset, read_bytes_read = the bytes_read \<rparr>),
             w \<lparr> mem_u64 := (mem_u64 w)(the bytes_read := 0) \<rparr>)))))"

definition j_object_write ::
  "glib_criticals \<Rightarrow> JObject option \<Rightarrow> string option \<Rightarrow> guint64 \<Rightarrow> guint64 \<Rightarrow> nat option
     \<Rightarrow> JBatch \<Rightarrow> ('os, 'ks) world \<Rightarrow> fault + (JBatch \<times> ('os, 'ks) world)" where
  "j_object_write criticals object data len offset bytes_written batch w =
     g_return_val_if_fail criticals (object \<noteq> None) (batch, w)
    (g_return_val_if_fail criticals (data \<noteq> None) (batch, w)
    (g_return_val_if_fail criticals (0 < len) (batch, w)
    (g_return_val_if_fail criticals (bytes_written \<noteq> None) (batch, w)
       (Inr (j_batch_add batch
               (Operation_object_write
                  \<lparr> write_object = the object, write_data = the data, write_length = len,
                    write_offset = offset, write_bytes_written = the bytes_written \<rparr>),
             w \<lparr> mem_u64 := (mem_u64 w)(the bytes_written := 0) \<rparr>)))))"




section \<open>Concrete inputs\<close>

text \<open>
  A complete key file without the \<^verbatim>\<open>max-connections\<close> key, with four object servers and
  four kv servers.
\<close>

definition example_key_file :: GKeyFile where
  "example_key_file =
     \<lparr> kf_integer = (\<lambda>g k. None),
       kf_string = (\<lambda>g k.
         if k = ''backend'' then Some (if g = ''object'' then ''posix'' else ''leveldb'')
         else if k = ''component'' then Some ''server''
         else if k = ''path'' then Some ''/tmp/julea''
         else None),
       kf_string_list = (\<lambda>g k.
         if g = ''servers'' then Some [''host0'', ''host1'', ''host2'', ''host3''] else None) \<rparr>"

definition example_configuration :: JConfiguration where
  "example_configuration = the (j_configuration_new_for_data (Some example_key_file))"







text \<open>The seed scenario of the specification: three keys of namespace \<^verbatim>\<open>ns\<close>.\<close>

definition example_leveldb_state :: leveldb_state where
  "example_leveldb_state =
     \<lparr> backend_db = [(''ns:alpha'' @ [NUL], ''1''), (''ns:ant'' @ [NUL], ''2''),
                      (''ns:beta'' @ [NUL], ''3'')],
       backend_write_options = \<lparr> wo_sync = False \<rparr>,
       backend_write_options_sync = \<lparr> wo_sync = True \<rparr>,
       write_calls = [] \<rparr>"

text \<open>A batch semantics with safety \<^verbatim>\<open>none\<close>, a put and a get of one key, an idle world.\<close>

definition example_semantics_none :: JSemantics where
  "example_semantics_none = \<lparr> sem_safety = J_SEMANTICS_SAFETY_NONE \<rparr>"




definition example_world :: "(unit, leveldb_state) world" where
  "example_world =
     \<lparr> local_object = (), local_kv = example_leveldb_state,
       documents = (\<lambda>a. None), mem_u64 = (\<lambda>a. 5), mem_i64 = (\<lambda>a. 0),
       calls = [], incoming = [], net = [] \<rparr>"



text \<open>An object backend all of whose calls succeed, and an object.\<close>

definition example_object_backend :: "(unit, unit) object_backend" where
  "example_object_backend =
     \<lparr> ob_create = (\<lambda>namespace name st. (True, Some (), st)),
       ob_open = (\<lambda>namespace name st. (True, Some (), st)),
       ob_delete = (\<lambda>h st. (True, st)),
       ob_close = (\<lambda>h st. (True, st)),
       ob_status = (\<lambda>h st. (True, Some (0, 16), st)),
       ob_write = (\<lambda>h bytes len off n st. (True, len, st)) \<rparr>"


definition example_object :: JObject where
  "example_object =
     \<lparr> obj_index = 0, obj_namespace = ''ns'', obj_name = ''obj'', obj_ref_count = 2 \<rparr>"

definition example_status :: JObjectOperation_status where
  "example_status =
     \<lparr> status_object = example_object, status_modification_time = Some 1,
       status_size = Some 2 \<rparr>"

text \<open>An empty batch with safety \<^verbatim>\<open>none\<close>; a write of six bytes at offset 10.\<close>

definition example_batch :: JBatch where
  "example_batch = \<lparr> batch_semantics = example_semantics_none, batch_list = [] \<rparr>"






section \<open>Configuration: required values and file selection\<close>

text \<open>The eight required values, in the words of the specification.\<close>

lemma new_for_data_None_iff:
  "(j_configuration_new_for_data (Some kf) = None) =
     (kf_string_list kf ''servers'' ''object'' = None
      \<or> kf_string_list kf ''servers'' ''object'' = Some []
      \<or> kf_string_list kf ''servers'' ''kv'' = None
      \<or> kf_string_list kf ''servers'' ''kv'' = Some []
      \<or> kf_string kf ''object'' ''backend'' = None
      \<or> kf_string kf ''object'' ''component'' = None
      \<or> kf_string kf ''object'' ''path'' = None
      \<or> kf_string kf ''kv'' ''backend'' = None
      \<or> kf_string kf ''kv'' ''component'' = None
      \<or> kf_string kf ''kv'' ''path'' = None)"
  unfolding j_configuration_new_for_data_def g_key_file_get_string_list_def
    g_key_file_get_string_def Let_def
  by simp

text \<open>
  C10: \<^verbatim>\<open>j_configuration_new_for_data\<close> returns \<^verbatim>\<open>NULL\<close> exactly when one of the eight
  required values is missing (an absent or empty object server list, an absent or empty
  kv server list, an absent object or kv backend, component or path). The key
  \<^verbatim>\<open>max-connections\<close> of \<^verbatim>\<open>[clients]\<close> is not required: when it is absent and nothing
  required is missing, the configuration is built and
  \<^verbatim>\<open>j_configuration_get_max_connections\<close> returns 0.
\<close>

theorem new_for_data_required_values:
  "((j_configuration_new_for_data (Some kf) = None) =
      (kf_string_list kf ''servers'' ''object'' = None
       \<or> kf_string_list kf ''servers'' ''object'' = Some []
       \<or> kf_string_list kf ''servers'' ''kv'' = None
       \<or> kf_string_list kf ''servers'' ''kv'' = Some []
       \<or> kf_string kf ''object'' ''backend'' = None
       \<or> kf_string kf ''object'' ''component'' = None
       \<or> kf_string kf ''object'' ''path'' = None
       \<or> kf_string kf ''kv'' ''backend'' = None
       \<or> kf_string kf ''kv'' ''component'' = None
       \<or> kf_string kf ''kv'' ''path'' = None))
   \<and> (kf_integer kf ''clients'' ''max-connections'' = None
        \<longrightarrow> j_configuration_new_for_data (Some kf) \<noteq> None
        \<longrightarrow> j_configuration_get_max_connections (j_configuration_new_for_data (Some kf)) = 0)"
proof (intro conjI impI)
  show "(j_configuration_new_for_data (Some kf) = None) =
      (kf_string_list kf ''servers'' ''object'' = None
       \<or> kf_string_list kf ''servers'' ''object'' = Some []
       \<or> kf_string_list kf ''servers'' ''kv'' = None
       \<or> kf_string_list kf ''servers'' ''kv'' = Some []
       \<or> kf_string kf ''object'' ''backend'' = None
       \<or> kf_string kf ''object'' ''component'' = None
       \<or> kf_string kf ''object'' ''path'' = None
       \<or> kf_string kf ''kv'' ''backend'' = None
       \<or> kf_string kf ''kv'' ''component'' = None
       \<or> kf_string kf ''kv'' ''path'' = None)"
    by (rule new_for_data_None_iff)
next
  assume absent: "kf_integer kf ''clients'' ''max-connections'' = None"
    and built: "j_configuration_new_for_data (Some kf) \<noteq> None"
  from built obtain c where c: "j_configuration_new_for_data (Some kf) = Some c"
    by blast
  have "max_connections c = of_int (g_key_file_get_integer kf ''clients'' ''max-connections'')"
    using c unfolding j_configuration_new_for_data_def Let_def
    by (auto split: if_splits)
  with absent have "max_connections c = 0"
    by (simp add: g_key_file_get_integer_def)
  with c show "j_configuration_get_max_connections (j_configuration_new_for_data (Some kf)) = 0"
    by (simp add: j_configuration_get_max_connections_def)
qed

lemma example_configuration_built:
  "j_configuration_new_for_data (Some example_key_file) = Some example_configuration"
  unfolding example_configuration_def
  by (simp add: j_configuration_new_for_data_def example_key_file_def
      g_key_file_get_string_list_def g_key_file_get_string_def Let_def)

theorem new_for_data_required_values_witness:
  "kf_integer example_key_file ''clients'' ''max-connections'' = None
   \<and> j_configuration_new_for_data (Some example_key_file) \<noteq> None
   \<and> j_configuration_get_max_connections
        (j_configuration_new_for_data (Some example_key_file)) = 0"
proof -
  have absent: "kf_integer example_key_file ''clients'' ''max-connections'' = None"
    by (simp add: example_key_file_def)
  have built: "j_configuration_new_for_data (Some example_key_file) \<noteq> None"
    by (simp add: example_configuration_built)
  from new_for_data_required_values [of example_key_file] absent built
  show ?thesis by blast
qed

section \<open>Handles: the server index\<close>

lemma example_configuration_counts:
  "j_configuration_get_object_server_count (Some example_configuration) = 4"
  "j_configuration_get_kv_server_count (Some example_configuration) = 4"
  unfolding example_configuration_def j_configuration_get_object_server_count_def
    j_configuration_get_kv_server_count_def
  by (simp_all add: j_configuration_new_for_data_def example_key_file_def
      g_key_file_get_string_list_def g_key_file_get_string_def Let_def)



section \<open>Configuration: the search order\<close>



lemma new_for_data_of_None [simp]: "j_configuration_new_for_data None = None"
  by (simp add: j_configuration_new_for_data_def)




section \<open>Prefix iteration in the LevelDB backend\<close>

lemma append_less_cancel: "(q @ a < q @ b) = (a < (b::string))"
  by (induction q) auto

lemma lex_interval_prefix:
  fixes q x :: string
  shows "q \<le> x \<Longrightarrow> x < q @ z \<Longrightarrow> prefix q x"
proof (induction q arbitrary: x)
  case Nil
  then show ?case by simp
next
  case (Cons c q)
  then obtain d x' where x: "x = d # x'"
    by (cases x) auto
  with Cons.prems have "c = d" "q \<le> x'" "x' < q @ z"
    by (auto simp: Cons_le_Cons Cons_less_Cons)
  with Cons.IH x show ?case by simp
qed

lemma key_ok_cstr:
  assumes "key_ok e"
  shows "takeWhile (\<lambda>c. c \<noteq> NUL) e = butlast e"
proof -
  from assms have e: "e = butlast e @ [NUL]"
    by (metis key_ok_def append_butlast_last_id)
  have "takeWhile (\<lambda>c. c \<noteq> NUL) (butlast e @ [NUL]) = butlast e"
    using assms by (subst takeWhile_append2) (auto simp: key_ok_def)
  with e show ?thesis by simp
qed

lemma NUL_least: "NUL \<le> (c::char)"
  by (simp add: NUL_def less_eq_char_def)

lemma has_prefix_not_below:
  assumes "key_ok e" and "g_str_has_prefix e q"
  shows "\<not> e < q @ [NUL]"
proof -
  from assms(1) have e: "e = butlast e @ [NUL]"
    by (metis key_ok_def append_butlast_last_id)
  from assms obtain r where r: "butlast e = q @ r"
    by (auto simp: g_str_has_prefix_def key_ok_cstr prefix_def)
  have "\<not> r @ [NUL] < [NUL]"
    using NUL_least by (cases r) (auto simp: Cons_less_Cons not_less)
  then have "\<not> q @ (r @ [NUL]) < q @ [NUL]"
    by (simp only: append_less_cancel not_False_eq_True)
  with e r show ?thesis by (metis append_assoc)
qed

lemma has_prefix_convex:
  assumes x: "key_ok x" and y: "key_ok y" and q: "NUL \<notin> set q"
    and lo: "\<not> x < q @ [NUL]" and xy: "x < y" and py: "g_str_has_prefix y q"
  shows "g_str_has_prefix x q"
proof -
  from y have ye: "y = butlast y @ [NUL]"
    by (metis key_ok_def append_butlast_last_id)
  from py y obtain r where r: "butlast y = q @ r"
    by (auto simp: g_str_has_prefix_def key_ok_cstr prefix_def)
  from ye r have "y = q @ (r @ [NUL])" by simp
  with xy have up: "x < q @ (r @ [NUL])" by simp
  have "q \<le> q @ [NUL]"
    by (induction q) (auto simp: Cons_le_Cons)
  with lo have "q \<le> x" by (meson not_less order_trans)
  from lex_interval_prefix [OF this up] have pq: "prefix q x" .
  from x have xe: "x = butlast x @ [NUL]"
    by (metis key_ok_def append_butlast_last_id)
  from pq obtain t where t: "x = q @ t" by (auto simp: prefix_def)
  have "t \<noteq> []"
  proof
    assume "t = []"
    with t x q show False
      using last_in_set [of q] by (auto simp: key_ok_def)
  qed
  with t have "butlast x = q @ butlast t"
    by (simp add: butlast_append)
  then show ?thesis
    using x by (simp add: g_str_has_prefix_def key_ok_cstr)
qed
lemma backend_iterate_cases:
  "backend_iterate it =
     (case it_iterator it of
        [] \<Rightarrow> (False, None, None)
      | (key, v) # rest \<Rightarrow>
          if \<not> g_str_has_prefix key (it_prefix it)
          then (False, None, None)
          else (True, Some v, Some (it \<lparr> it_iterator := rest \<rparr>)))"
  by (cases "it_iterator it")
    (auto simp: backend_iterate_def leveldb_iter_valid_def leveldb_iter_key_def
      leveldb_iter_value_def)

lemma iterate_all_takeWhile:
  "iterate_all it =
     map snd (takeWhile (\<lambda>e. g_str_has_prefix (fst e) (it_prefix it)) (it_iterator it))"
proof (induction "it_iterator it" arbitrary: it)
  case Nil
  then show ?case
    by (subst iterate_all.simps) (simp add: backend_iterate_cases)
next
  case (Cons e es)
  obtain k v where e: "e = (k, v)" by (cases e)
  let ?it' = "it \<lparr> it_iterator := es \<rparr>"
  have ih: "iterate_all ?it' =
     map snd (takeWhile (\<lambda>e. g_str_has_prefix (fst e) (it_prefix it)) es)"
    using Cons.hyps(1) [of ?it'] by simp
  from Cons.hyps(2) e have l: "it_iterator it = (k, v) # es" by simp
  show ?case
    by (subst iterate_all.simps) (simp add: backend_iterate_cases l ih)
qed

lemma seek_takeWhile_filter:
  fixes db :: "(string \<times> 'v) list"
  assumes srt: "sorted_wrt (<) (map fst db)"
    and ge: "\<And>e. e \<in> set db \<Longrightarrow> P e \<Longrightarrow> \<not> fst e < t"
    and convex: "\<And>x y. x \<in> set db \<Longrightarrow> y \<in> set db \<Longrightarrow> \<not> fst x < t \<Longrightarrow> fst x < fst y
                   \<Longrightarrow> P y \<Longrightarrow> P x"
  shows "takeWhile P (dropWhile (\<lambda>e. fst e < t) db) = filter P db"
  using assms
proof (induction db)
  case Nil
  then show ?case by simp
next
  case (Cons a db)
  show ?case
  proof (cases "fst a < t")
    case True
    with Cons.prems(2) [of a] have "\<not> P a" by auto
    moreover have "takeWhile P (dropWhile (\<lambda>e. fst e < t) db) = filter P db"
    proof (rule Cons.IH)
      show "sorted_wrt (<) (map fst db)"
        using Cons.prems(1) by simp
    next
      fix e assume "e \<in> set db" "P e"
      then show "\<not> fst e < t"
        using Cons.prems(2) [of e] by simp
    next
      fix x y assume "x \<in> set db" "y \<in> set db" "\<not> fst x < t" "fst x < fst y" "P y"
      then show "P x"
        using Cons.prems(3) [of x y] by simp
    qed
    ultimately show ?thesis using True by simp
  next
    case False
    have tail: "\<forall>y \<in> set db. fst a < fst y"
      using Cons.prems(1) by simp
    have "takeWhile P (a # db) = filter P (a # db)"
    proof (rule takeWhile_eq_filter)
      fix x assume x: "x \<in> set (dropWhile P (a # db))"
      show "\<not> P x"
      proof
        assume px: "P x"
        from x have xin: "x \<in> set (a # db)" by (meson set_dropWhileD)
        have "dropWhile P (a # db) \<noteq> []" using x by (metis empty_iff empty_set)
        then have "\<not> P (hd (dropWhile P (a # db)))"
          by (rule hd_dropWhile)
        moreover obtain z where z: "z = hd (dropWhile P (a # db))" by simp
        ultimately have nz: "\<not> P z" by simp
        have zin: "z \<in> set (a # db)"
          using z \<open>dropWhile P (a # db) \<noteq> []\<close> by (meson hd_in_set set_dropWhileD)
        have srt': "sorted_wrt (<) (map fst (dropWhile P (a # db)))"
          using Cons.prems(1) by (metis sorted_wrt_dropWhile sorted_wrt_map)
        have "x = z \<or> fst z < fst x"
          using x z srt' by (cases "dropWhile P (a # db)") (auto simp: sorted_wrt_map)
        with px nz have lt: "fst z < fst x" by auto
        have "\<not> fst z < t"
        proof (cases "z = a")
          case True with False show ?thesis by simp
        next
          case False': False
          with zin tail have az: "fst a < fst z" by auto
          show ?thesis
          proof
            assume "fst z < t"
            with az have "fst a < t" by (rule less_trans)
            with False show False by simp
          qed
        qed
        from Cons.prems(3) [OF zin xin this lt px] nz show False by simp
      qed
    qed
    with False show ?thesis by simp
  qed
qed
lemma key_ok_split:
  assumes "key_ok e"
  obtains s where "e = s @ [NUL]" "NUL \<notin> set s" "takeWhile (\<lambda>c. c \<noteq> NUL) e = s"
proof -
  from assms have "e = butlast e @ [NUL]"
    by (metis key_ok_def append_butlast_last_id)
  moreover from assms have "NUL \<notin> set (butlast e)"
    by (simp add: key_ok_def)
  ultimately show ?thesis
    using that key_ok_cstr [OF assms] by blast
qed

lemma stored_key_nskey: "stored_key ns (nskey ns k @ [NUL]) = Some k"
  by (simp add: stored_key_def nskey_def butlast_append)

lemma has_prefix_stored_key:
  assumes e: "key_ok e" and ns: "NUL \<notin> set ns" and p: "NUL \<notin> set p"
  shows "g_str_has_prefix e (nskey ns p) =
           (case stored_key ns e of None \<Rightarrow> False | Some k \<Rightarrow> prefix p k)"
proof -
  from e obtain s where s: "e = s @ [NUL]" "NUL \<notin> set s" "takeWhile (\<lambda>c. c \<noteq> NUL) e = s"
    by (rule key_ok_split)
  have colon: "CHR '':'' \<noteq> NUL" by (simp add: NUL_def)
  show ?thesis
  proof (cases "prefix (ns @ '':'') s")
    case True
    then obtain k where k: "s = ns @ '':'' @ k"
      by (auto simp: prefix_def)
    have "stored_key ns e = Some k"
      using s(1) k colon by (simp add: stored_key_def butlast_append)
    moreover have "g_str_has_prefix e (nskey ns p) = prefix p k"
      using s(3) k by (simp add: g_str_has_prefix_def nskey_def)
    ultimately show ?thesis by simp
  next
    case False
    have "\<not> prefix (ns @ '':'') e"
    proof
      assume "prefix (ns @ '':'') e"
      with s(1) have "prefix (ns @ '':'') s \<or> ns @ '':'' = s @ [NUL]"
        by (auto simp: prefix_snoc)
      with False colon show False by auto
    qed
    then have "stored_key ns e = None"
      by (simp add: stored_key_def)
    moreover have "\<not> g_str_has_prefix e (nskey ns p)"
    proof
      assume "g_str_has_prefix e (nskey ns p)"
      with s(3) have "prefix (ns @ '':'' @ p) s"
        by (simp add: g_str_has_prefix_def nskey_def)
      then have "prefix (ns @ '':'') s"
        by (metis append_assoc append_prefixD)
      with False show False by simp
    qed
    ultimately show ?thesis by simp
  qed
qed

lemma iterator_inv_takeWhile_filter:
  assumes "iterator_inv it"
  shows "takeWhile (\<lambda>e. g_str_has_prefix (fst e) (it_prefix it)) (it_iterator it)
           = filter (\<lambda>e. g_str_has_prefix (fst e) (it_prefix it)) (it_iterator it)"
proof -
  let ?l = "it_iterator it" and ?t = "it_prefix it @ [NUL]"
  let ?P = "\<lambda>e::string \<times> bson_t. g_str_has_prefix (fst e) (it_prefix it)"
  from assms have srt: "sorted_wrt (<) (map fst ?l)"
    and ok: "\<And>e. e \<in> set ?l \<Longrightarrow> key_ok (fst e)"
    and ge: "\<And>e. e \<in> set ?l \<Longrightarrow> \<not> fst e < ?t"
    and q: "NUL \<notin> set (it_prefix it)"
    by (auto simp: iterator_inv_def stored_keys_ok_def list_all_iff)
  have "dropWhile (\<lambda>e. fst e < ?t) ?l = ?l"
    using ge by (cases ?l) auto
  moreover have "takeWhile ?P (dropWhile (\<lambda>e. fst e < ?t) ?l) = filter ?P ?l"
  proof (rule seek_takeWhile_filter [OF srt])
    fix e assume "e \<in> set ?l" "?P e"
    then show "\<not> fst e < ?t" using ge by simp
  next
    fix x y assume "x \<in> set ?l" "y \<in> set ?l" "\<not> fst x < ?t" "fst x < fst y" "?P y"
    then show "?P x"
      using has_prefix_convex [of "fst x" "fst y" "it_prefix it"] ok q by simp
  qed
  ultimately show ?thesis by simp
qed

lemma get_by_prefix_values:
  assumes ok: "stored_keys_ok (backend_db st)" and ns: "NUL \<notin> set ns" and p: "NUL \<notin> set p"
  shows "\<exists>it. backend_get_by_prefix st ns p = (True, Some it)
           \<and> iterator_inv it \<and> it_prefix it = nskey ns p
           \<and> iterate_all it = spec_prefix_values (backend_db st) ns p"
proof -
  let ?db = "backend_db st" and ?q = "nskey ns p"
  let ?P = "\<lambda>e::string \<times> bson_t. g_str_has_prefix (fst e) ?q"
  let ?it = "\<lparr> it_iterator = leveldb_iter_seek ?db (?q @ [NUL]), it_prefix = ?q \<rparr>"
  from ok have srt: "sorted_wrt (<) (map fst ?db)"
    and kok: "\<And>e. e \<in> set ?db \<Longrightarrow> key_ok (fst e)"
    by (auto simp: stored_keys_ok_def list_all_iff)
  have q: "NUL \<notin> set ?q"
    using ns p by (simp add: nskey_def NUL_def)
  have get: "backend_get_by_prefix st ns p = (True, Some ?it)"
    by (simp add: backend_get_by_prefix_def leveldb_create_iterator_def)
  have sub: "set (leveldb_iter_seek ?db (?q @ [NUL])) \<subseteq> set ?db"
    by (auto simp: leveldb_iter_seek_def dest: set_dropWhileD)
  have srt': "sorted_wrt (<) (map fst (leveldb_iter_seek ?db (?q @ [NUL])))"
    using srt by (simp add: leveldb_iter_seek_def sorted_wrt_map sorted_wrt_dropWhile)
  have ge: "\<forall>e \<in> set (leveldb_iter_seek ?db (?q @ [NUL])). \<not> fst e < ?q @ [NUL]"
  proof
    fix e assume e: "e \<in> set (leveldb_iter_seek ?db (?q @ [NUL]))"
    let ?d = "dropWhile (\<lambda>e. fst e < ?q @ [NUL]) ?db"
    from e have ne: "?d \<noteq> []"
      unfolding leveldb_iter_seek_def by (metis empty_iff empty_set)
    then have h: "\<not> fst (hd ?d) < ?q @ [NUL]" by (rule hd_dropWhile)
    from e srt' have "e = hd ?d \<or> fst (hd ?d) < fst e"
      by (cases ?d) (auto simp: leveldb_iter_seek_def)
    with h show "\<not> fst e < ?q @ [NUL]"
      using less_trans [of "fst (hd ?d)" "fst e" "?q @ [NUL]"] by auto
  qed
  have inv: "iterator_inv ?it"
    using sub srt' ge q kok
    by (auto simp: iterator_inv_def stored_keys_ok_def list_all_iff)
  have "iterate_all ?it = map snd (takeWhile ?P (leveldb_iter_seek ?db (?q @ [NUL])))"
    by (simp add: iterate_all_takeWhile)
  also have "takeWhile ?P (leveldb_iter_seek ?db (?q @ [NUL])) = filter ?P ?db"
    unfolding leveldb_iter_seek_def
  proof (rule seek_takeWhile_filter [OF srt])
    fix e assume "e \<in> set ?db" "?P e"
    then show "\<not> fst e < ?q @ [NUL]"
      using has_prefix_not_below [of "fst e" ?q] kok by simp
  next
    fix x y assume "x \<in> set ?db" "y \<in> set ?db" "\<not> fst x < ?q @ [NUL]" "fst x < fst y" "?P y"
    then show "?P x"
      using has_prefix_convex [of "fst x" "fst y" ?q] kok q by simp
  qed
  also have "filter ?P ?db =
      filter (\<lambda>e. case stored_key ns (fst e) of None \<Rightarrow> False | Some k \<Rightarrow> prefix p k) ?db"
    by (rule filter_cong) (use kok ns p in \<open>simp_all add: has_prefix_stored_key\<close>)
  finally have "iterate_all ?it = spec_prefix_values ?db ns p"
    by (simp add: spec_prefix_values_def)
  with get inv show ?thesis by auto
qed

lemma iterate_step:
  assumes inv: "iterator_inv it"
  shows "if filter (\<lambda>e. g_str_has_prefix (fst e) (it_prefix it)) (it_iterator it) = []
         then backend_iterate it = (False, None, None) \<and> iterate_all it = []
         else \<exists>v it'. backend_iterate it = (True, Some v, Some it')
                \<and> iterator_inv it' \<and> it_prefix it' = it_prefix it
                \<and> iterate_all it = v # iterate_all it'"
proof (cases "it_iterator it")
  case Nil
  then show ?thesis
    by (simp add: backend_iterate_cases iterate_all_takeWhile)
next
  case (Cons e es)
  obtain k v where e: "e = (k, v)" by (cases e)
  note tf = iterator_inv_takeWhile_filter [OF inv]
  show ?thesis
  proof (cases "g_str_has_prefix k (it_prefix it)")
    case True
    let ?it' = "it \<lparr> it_iterator := es \<rparr>"
    have "backend_iterate it = (True, Some v, Some ?it')"
      using Cons e True by (simp add: backend_iterate_cases)
    moreover have "iterator_inv ?it'"
      using inv Cons by (simp add: iterator_inv_def stored_keys_ok_def)
    moreover have "iterate_all it = v # iterate_all ?it'"
      using Cons e True by (simp add: iterate_all_takeWhile)
    ultimately show ?thesis
      using Cons e True by auto
  next
    case False
    with Cons e have "takeWhile (\<lambda>e. g_str_has_prefix (fst e) (it_prefix it)) (it_iterator it) = []"
      by simp
    with tf have "filter (\<lambda>e. g_str_has_prefix (fst e) (it_prefix it)) (it_iterator it) = []"
      by simp
    moreover have "backend_iterate it = (False, None, None)"
      using Cons e False by (simp add: backend_iterate_cases)
    moreover have "iterate_all it = []"
      using Cons e False by (simp add: iterate_all_takeWhile)
    ultimately show ?thesis by simp
  qed
qed


lemma example_leveldb_state_ok: "stored_keys_ok (backend_db example_leveldb_state)"
  by (simp add: example_leveldb_state_def stored_keys_ok_def key_ok_def NUL_def
      less_char_def Cons_less_Cons)

lemma example_leveldb_state_values:
  "spec_prefix_values (backend_db example_leveldb_state) ''ns'' ''a'' = [''1'', ''2'']"
  by (simp add: example_leveldb_state_def spec_prefix_values_def stored_key_def NUL_def)

text \<open>
  C5: for every namespace and prefix, \<^verbatim>\<open>get_by_prefix\<close> followed by repeated \<^verbatim>\<open>iterate\<close>
  calls yields the values of all and only the stored keys of the namespace that start
  with the prefix (keys being stored as \<^verbatim>\<open>"<ns>:<key>\0"\<close>), stopping at the first stored
  key outside the prefix; \<^verbatim>\<open>iterate\<close> returns false exactly when no stored key with the
  prefix is left, and the iterator is freed then and only then. The database holds keys
  written by \<^verbatim>\<open>backend_put\<close> in comparator order; namespace and prefix are C strings.
\<close>

theorem prefix_iteration:
  assumes "stored_keys_ok (backend_db st)" and "NUL \<notin> set ns" and "NUL \<notin> set p"
  shows "(\<exists>it. backend_get_by_prefix st ns p = (True, Some it)
            \<and> iterator_inv it \<and> it_prefix it = nskey ns p
            \<and> iterate_all it = spec_prefix_values (backend_db st) ns p
            \<and> iterate_all it =
                 map snd (takeWhile (\<lambda>e. g_str_has_prefix (fst e) (nskey ns p))
                            (it_iterator it)))
    \<and> (\<forall>k. stored_key ns (nskey ns k @ [NUL]) = Some k)
    \<and> (\<forall>it. iterator_inv it \<longrightarrow>
          (if filter (\<lambda>e. g_str_has_prefix (fst e) (it_prefix it)) (it_iterator it) = []
           then backend_iterate it = (False, None, None) \<and> iterate_all it = []
           else \<exists>v it'. backend_iterate it = (True, Some v, Some it')
                  \<and> iterator_inv it' \<and> it_prefix it' = it_prefix it
                  \<and> iterate_all it = v # iterate_all it'))"
proof (intro conjI allI impI)
  from get_by_prefix_values [OF assms] obtain it
    where it: "backend_get_by_prefix st ns p = (True, Some it)" "iterator_inv it"
      "it_prefix it = nskey ns p" "iterate_all it = spec_prefix_values (backend_db st) ns p"
    by blast
  from it(3) have "iterate_all it =
      map snd (takeWhile (\<lambda>e. g_str_has_prefix (fst e) (nskey ns p)) (it_iterator it))"
    using iterate_all_takeWhile [of it] by simp
  with it show "\<exists>it. backend_get_by_prefix st ns p = (True, Some it)
            \<and> iterator_inv it \<and> it_prefix it = nskey ns p
            \<and> iterate_all it = spec_prefix_values (backend_db st) ns p
            \<and> iterate_all it =
                 map snd (takeWhile (\<lambda>e. g_str_has_prefix (fst e) (nskey ns p))
                            (it_iterator it))"
    by blast
next
  fix k show "stored_key ns (nskey ns k @ [NUL]) = Some k"
    by (rule stored_key_nskey)
next
  fix it assume "iterator_inv it"
  then show "if filter (\<lambda>e. g_str_has_prefix (fst e) (it_prefix it)) (it_iterator it) = []
           then backend_iterate it = (False, None, None) \<and> iterate_all it = []
           else \<exists>v it'. backend_iterate it = (True, Some v, Some it')
                  \<and> iterator_inv it' \<and> it_prefix it' = it_prefix it
                  \<and> iterate_all it = v # iterate_all it'"
    by (rule iterate_step)
qed

theorem prefix_iteration_witness:
  "stored_keys_ok (backend_db example_leveldb_state)
   \<and> NUL \<notin> set ''ns'' \<and> NUL \<notin> set ''a''
   \<and> (\<exists>it. backend_get_by_prefix example_leveldb_state ''ns'' ''a'' = (True, Some it)
          \<and> iterate_all it = [''1'', ''2''])"
proof -
  have n: "NUL \<notin> set ''ns''" "NUL \<notin> set ''a''"
    by (simp_all add: NUL_def)
  from prefix_iteration [OF example_leveldb_state_ok n]
  obtain it where "backend_get_by_prefix example_leveldb_state ''ns'' ''a'' = (True, Some it)"
    "iterate_all it = spec_prefix_values (backend_db example_leveldb_state) ''ns'' ''a''"
    by blast
  then have "\<exists>it. backend_get_by_prefix example_leveldb_state ''ns'' ''a'' = (True, Some it)
          \<and> iterate_all it = [''1'', ''2'']"
    by (auto simp: example_leveldb_state_values)
  with example_leveldb_state_ok n show ?thesis by blast
qed

section \<open>The database invariant is kept by the backend\<close>

lemma leveldb_put_keys:
  "set (map fst (leveldb_put k v db)) = insert k (set (map fst db))"
proof (induction db)
  case Nil
  then show ?case by simp
next
  case (Cons e db)
  obtain k' v' where e: "e = (k', v')" by (cases e)
  with Cons.IH show ?case
    by (cases "k < k'"; cases "k = k'") (simp_all add: insert_commute)
qed

lemma leveldb_put_sorted:
  "sorted_wrt (<) (map fst db) \<Longrightarrow> sorted_wrt (<) (map fst (leveldb_put k v db))"
proof (induction db)
  case Nil
  then show ?case by simp
next
  case (Cons e db)
  obtain k' v' where e: "e = (k', v')" by (cases e)
  show ?case
  proof (cases "k < k'")
    case True
    with Cons.prems e show ?thesis by (auto intro: less_trans)
  next
    case False
    show ?thesis
    proof (cases "k = k'")
      case True
      with Cons.prems e show ?thesis by auto
    next
      case ne: False
      with False have lt: "k' < k" by simp
      have "\<forall>x \<in> set (map fst (leveldb_put k v db)). k' < x"
        using Cons.prems e lt by (simp only: leveldb_put_keys) auto
      with Cons e False ne show ?thesis by simp
    qed
  qed
qed

lemma key_ok_nskey:
  assumes "NUL \<notin> set ns" and "NUL \<notin> set key"
  shows "key_ok (nskey ns key @ [NUL])"
  using assms by (simp add: key_ok_def nskey_def NUL_def butlast_append)

lemma stored_keys_ok_apply:
  assumes "stored_keys_ok db"
    and "case op of WB_Put k v \<Rightarrow> key_ok k | WB_Delete k \<Rightarrow> True"
  shows "stored_keys_ok (leveldb_apply op db)"
proof (cases op)
  case (WB_Put k v)
  have "list_all key_ok (map fst (leveldb_put k v db))"
    using assms WB_Put leveldb_put_keys [of k v db]
    by (simp add: stored_keys_ok_def list_all_iff del: set_map)
  with assms(1) WB_Put show ?thesis
    by (simp add: stored_keys_ok_def leveldb_put_sorted)
next
  case (WB_Delete k)
  with assms(1) show ?thesis
    by (simp add: stored_keys_ok_def leveldb_delete_def list_all_iff
        sorted_wrt_map sorted_wrt_filter)
qed

lemma stored_keys_ok_write:
  assumes "stored_keys_ok db"
    and "list_all (\<lambda>op. case op of WB_Put k v \<Rightarrow> key_ok k | WB_Delete k \<Rightarrow> True) batch"
  shows "stored_keys_ok (leveldb_write db batch)"
  using assms unfolding leveldb_write_def
  by (induction batch arbitrary: db) (simp_all add: stored_keys_ok_apply)

lemma batch_add_ops_ok:
  assumes "NUL \<notin> set (batch_namespace batch)"
    and "list_all (\<lambda>op. NUL \<notin> set (fst op)) ops"
    and "list_all (\<lambda>op. case op of WB_Put k v \<Rightarrow> key_ok k | WB_Delete k \<Rightarrow> True)
           (batch_ops batch)"
  shows "list_all (\<lambda>op. case op of WB_Put k v \<Rightarrow> key_ok k | WB_Delete k \<Rightarrow> True)
           (batch_ops (fold backend_batch_add ops batch))"
  using assms
proof (induction ops arbitrary: batch)
  case Nil
  then show ?case by simp
next
  case (Cons op ops)
  obtain k v where op: "op = (k, v)" by (cases op)
  from Cons.prems op have k: "NUL \<notin> set k" by simp
  have "NUL \<notin> set (batch_namespace (backend_batch_add op batch))"
    and "list_all (\<lambda>op. case op of WB_Put k v \<Rightarrow> key_ok k | WB_Delete k \<Rightarrow> True)
           (batch_ops (backend_batch_add op batch))"
    using Cons.prems(1,3) op k key_ok_nskey [of "batch_namespace batch" k]
    by (cases v; simp add: backend_put_def backend_delete_def)+
  with Cons.IH [of "backend_batch_add op batch"] Cons.prems(2) show ?case by simp
qed

lemma stored_keys_ok_batch_execute:
  assumes "stored_keys_ok (backend_db st)" and "NUL \<notin> set ns"
    and "list_all (\<lambda>op. NUL \<notin> set (fst op)) ops"
  shows "stored_keys_ok (backend_db (snd (backend_batch_execute st
           (fold backend_batch_add ops (snd (backend_batch_start ns safety))))))"
proof -
  let ?b = "snd (backend_batch_start ns safety)"
  have "list_all (\<lambda>op. case op of WB_Put k v \<Rightarrow> key_ok k | WB_Delete k \<Rightarrow> True)
           (batch_ops (fold backend_batch_add ops ?b))"
    using assms(2,3) by (intro batch_add_ops_ok) (simp_all add: backend_batch_start_def)
  with assms(1) show ?thesis
    by (simp add: backend_batch_execute_def Let_def stored_keys_ok_write)
qed

section \<open>Durable commits in the LevelDB backend\<close>

lemma backend_batch_add_safety:
  "batch_safety (fold backend_batch_add ops batch) = batch_safety batch"
proof (induction ops arbitrary: batch)
  case Nil
  then show ?case by simp
next
  case (Cons op ops)
  obtain k v where "op = (k, v)" by (cases op)
  then show ?case
    using Cons.IH by (cases v) (simp_all add: backend_put_def backend_delete_def)
qed

lemma backend_batch_add_ops:
  "batch_ops (fold backend_batch_add ops batch)
     = batch_ops batch
       @ map (\<lambda>(k, v). case v of
                          Some d \<Rightarrow> WB_Put (nskey (batch_namespace batch) k @ [NUL]) d
                        | None \<Rightarrow> WB_Delete (nskey (batch_namespace batch) k @ [NUL])) ops
   \<and> batch_namespace (fold backend_batch_add ops batch) = batch_namespace batch"
proof (induction ops arbitrary: batch)
  case Nil
  then show ?case by simp
next
  case (Cons op ops)
  obtain k v where op: "op = (k, v)" by (cases op)
  show ?case
  proof (cases v)
    case None
    with op Cons.IH [of "snd (backend_delete batch k)"] show ?thesis
      by (simp add: backend_delete_def)
  next
    case (Some d)
    with op Cons.IH [of "snd (backend_put batch k d)"] show ?thesis
      by (simp add: backend_put_def)
  qed
qed

lemma backend_batches_execute_options:
  "backend_write_options (backend_batches_execute batches st) = backend_write_options st
   \<and> backend_write_options_sync (backend_batches_execute batches st)
       = backend_write_options_sync st"
  unfolding backend_batches_execute_def
  by (induction batches arbitrary: st) (simp_all add: backend_batch_execute_def Let_def)

lemma backend_init_options:
  assumes "backend_init leveldb_open path = Some st"
  shows "\<not> wo_sync (backend_write_options st) \<and> wo_sync (backend_write_options_sync st)"
  using assms
  by (auto simp: backend_init_def Let_def leveldb_writeoptions_create_def
      leveldb_writeoptions_set_sync_def split: option.splits)

text \<open>
  C6: for every batch started by \<^verbatim>\<open>batch_start\<close> with safety \<^verbatim>\<open>storage\<close>, the LevelDB
  backend's \<^verbatim>\<open>batch_execute\<close> commits with the synchronous write options, and for every
  batch started with a lower safety it commits with the write options that are not
  synchronous. The commit is the one call of \<^verbatim>\<open>leveldb_write\<close> on the database with the
  batch's operations, which are the puts and deletes added to the batch, in their order,
  under the keys \<^verbatim>\<open>"<namespace>:<key>"\<close>; the database afterwards is the database before
  with these operations applied. This holds in the state after \<^verbatim>\<open>backend_init\<close> and any
  number of executed batches, whatever was put into or deleted from the batch.
\<close>

theorem batch_execute_sync:
  assumes "backend_init leveldb_open path = Some st0"
    and "st = backend_batches_execute earlier st0"
    and "batch = fold backend_batch_add ops (snd (backend_batch_start ns safety))"
  shows "\<exists>options. write_calls (snd (backend_batch_execute st batch))
                     = write_calls st @ [(options, batch_ops batch)]
           \<and> wo_sync options = (safety = J_SEMANTICS_SAFETY_STORAGE)
           \<and> options = (if safety = J_SEMANTICS_SAFETY_STORAGE
                        then backend_write_options_sync st else backend_write_options st)
           \<and> fst (backend_batch_execute st batch)
           \<and> backend_db (snd (backend_batch_execute st batch))
               = leveldb_write (backend_db st) (batch_ops batch)
           \<and> batch_ops batch
               = map (\<lambda>(k, v). case v of
                                  Some d \<Rightarrow> WB_Put (nskey ns k @ [NUL]) d
                                | None \<Rightarrow> WB_Delete (nskey ns k @ [NUL])) ops"
proof -
  have s: "batch_safety batch = safety"
    using assms(3) by (simp add: backend_batch_add_safety backend_batch_start_def)
  have o: "\<not> wo_sync (backend_write_options st)" "wo_sync (backend_write_options_sync st)"
    using backend_init_options [OF assms(1)] backend_batches_execute_options [of earlier st0]
      assms(2) by simp_all
  have b: "batch_ops batch
               = map (\<lambda>(k, v). case v of
                                  Some d \<Rightarrow> WB_Put (nskey ns k @ [NUL]) d
                                | None \<Rightarrow> WB_Delete (nskey ns k @ [NUL])) ops"
    using backend_batch_add_ops [of ops "snd (backend_batch_start ns safety)"] assms(3)
    by (simp add: backend_batch_start_def)
  show ?thesis
    using s o b by (simp add: backend_batch_execute_def Let_def)
qed

theorem batch_execute_sync_witness:
  "(\<exists>options. write_calls (snd (backend_batch_execute
        (the (backend_init (\<lambda>p. Some []) ''/tmp/db''))
        (fold backend_batch_add [(''a'', Some ''1'')]
           (snd (backend_batch_start ''ns'' J_SEMANTICS_SAFETY_STORAGE)))))
      = [(options, [WB_Put (''ns:a'' @ [NUL]) ''1''])] \<and> wo_sync options)
   \<and> (\<exists>options. write_calls (snd (backend_batch_execute
        (the (backend_init (\<lambda>p. Some []) ''/tmp/db''))
        (fold backend_batch_add [(''a'', Some ''1'')]
           (snd (backend_batch_start ''ns'' J_SEMANTICS_SAFETY_NETWORK)))))
      = [(options, [WB_Put (''ns:a'' @ [NUL]) ''1''])] \<and> \<not> wo_sync options)
   \<and> backend_db (snd (backend_batch_execute
        (the (backend_init (\<lambda>p. Some []) ''/tmp/db''))
        (fold backend_batch_add [(''a'', Some ''1'')]
           (snd (backend_batch_start ''ns'' J_SEMANTICS_SAFETY_STORAGE)))))
      = [(''ns:a'' @ [NUL], ''1'')]
   \<and> backend_db (snd (backend_batch_execute
        (the (backend_init (\<lambda>p. Some []) ''/tmp/db''))
        (fold backend_batch_add [(''a'', Some ''1'')]
           (snd (backend_batch_start ''ns'' J_SEMANTICS_SAFETY_NETWORK)))))
      = [(''ns:a'' @ [NUL], ''1'')]"
proof -
  let ?st = "the (backend_init (\<lambda>p. Some []) ''/tmp/db'')"
  have i: "backend_init (\<lambda>p. Some []) ''/tmp/db'' = Some ?st"
    by (simp add: backend_init_def Let_def)
  have e: "?st = backend_batches_execute [] ?st"
    by (simp add: backend_batches_execute_def)
  have w: "write_calls ?st = []"
    by (simp add: backend_init_def Let_def)
  have d: "backend_db ?st = []"
    by (simp add: backend_init_def Let_def)
  have b: "batch_ops (fold backend_batch_add [(''a'', Some ''1'')]
           (snd (backend_batch_start ''ns'' s))) = [WB_Put (''ns:a'' @ [NUL]) ''1'']" for s
    by (simp add: backend_batch_start_def backend_put_def nskey_def)
  have l: "leveldb_write [] [WB_Put (''ns:a'' @ [NUL]) ''1''] = [(''ns:a'' @ [NUL], ''1'')]"
    by (simp add: leveldb_write_def)
  from batch_execute_sync [OF i e refl, of "[(''a'', Some ''1'')]" "''ns''" J_SEMANTICS_SAFETY_STORAGE]
    batch_execute_sync [OF i e refl, of "[(''a'', Some ''1'')]" "''ns''" J_SEMANTICS_SAFETY_NETWORK]
  show ?thesis
    unfolding w b d l by simp
qed

section \<open>The kv client: safety of put and get on the wire\<close>

lemma fold_put_remote_flags:
  "msg_flags (fold j_kv_put_exec_remote ops m) = msg_flags m"
  by (induction ops arbitrary: m)
    (simp_all add: j_kv_put_exec_remote_def j_message_append_n_def j_message_append_4_def
      j_message_add_operation_def)

lemma fold_get_remote_flags:
  "msg_flags (fold j_kv_get_exec_remote ops m) = msg_flags m"
  by (induction ops arbitrary: m)
    (simp_all add: j_kv_get_exec_remote_def j_message_append_n_def
      j_message_add_operation_def)

lemma set_safety_none_flags:
  "msg_flags (j_message_append_n
      (j_message_set_safety (j_message_new op) \<lparr> sem_safety = J_SEMANTICS_SAFETY_NONE \<rparr>) bytes) = {}"
  by (simp add: j_message_append_n_def j_message_set_safety_def j_message_new_def
      j_semantics_get_safety_def)

text \<open>
  C1 (the code departs from it): the claim is that every kv put run and every kv get run
  executed over the wire is upgraded to a safety of at least \<^verbatim>\<open>network\<close>, so that the
  request frame carries \<^verbatim>\<open>SAFETY_NETWORK\<close> and a reply is read before the connection goes
  back to the pool, also when the batch asks for safety \<^verbatim>\<open>none\<close>. In the code the call
  that forces the flag is commented out. With safety \<^verbatim>\<open>none\<close> and no local backend, a
  put run sends a frame without the flag and returns the connection without receiving
  anything; a get run sends a frame without the flag and then waits for a reply all the
  same.
\<close>

theorem kv_exec_safety_not_upgraded:
  "(\<exists>m. j_kv_put_exec None (kop # kops) \<lparr> sem_safety = J_SEMANTICS_SAFETY_NONE \<rparr> w
          = Inr (True, w \<lparr> net := net w @ [Pop_kv (kv_index (put_kv kop)), Send m,
                                               Push_kv (kv_index (put_kv kop))] \<rparr>)
        \<and> J_MESSAGE_FLAGS_SAFETY_NETWORK \<notin> msg_flags m)
   \<and> (\<exists>m. j_kv_get_exec None (gop # gops) \<lparr> sem_safety = J_SEMANTICS_SAFETY_NONE \<rparr> w
          = (case j_message_receive
                    (j_message_send m (j_connection_pool_pop_kv (kv_index (get_kv gop)) w)) of
               Inl f \<Rightarrow> Inl f
             | Inr (reply, w2) \<Rightarrow>
                 (case j_kv_get_exec_reply (gop # gops) (msg_fields reply) True w2 of
                    Inl f \<Rightarrow> Inl f
                  | Inr (ret, w3) \<Rightarrow>
                      Inr (ret, j_connection_pool_push_kv (kv_index (get_kv gop)) w3)))
        \<and> J_MESSAGE_FLAGS_SAFETY_NETWORK \<notin> msg_flags m)"
proof (intro conjI)
  let ?sem = "\<lparr> sem_safety = J_SEMANTICS_SAFETY_NONE \<rparr>"
  let ?m = "fold j_kv_put_exec_remote (kop # kops)
      (j_message_append_n (j_message_set_safety (j_message_new J_MESSAGE_KV_PUT) ?sem)
         (kv_namespace (put_kv kop) @ [NUL]))"
  have f: "msg_flags ?m = {}"
    by (simp only: fold_put_remote_flags set_safety_none_flags)
  then have "j_kv_put_exec None (kop # kops) ?sem w
          = Inr (True, w \<lparr> net := net w @ [Pop_kv (kv_index (put_kv kop)), Send ?m,
                                               Push_kv (kv_index (put_kv kop))] \<rparr>)"
    by (simp add: j_kv_put_exec_def Let_def j_message_get_flags_def j_message_send_def
        j_connection_pool_pop_kv_def j_connection_pool_push_kv_def)
  with f show "\<exists>m. j_kv_put_exec None (kop # kops) ?sem w
          = Inr (True, w \<lparr> net := net w @ [Pop_kv (kv_index (put_kv kop)), Send m,
                                               Push_kv (kv_index (put_kv kop))] \<rparr>)
        \<and> J_MESSAGE_FLAGS_SAFETY_NETWORK \<notin> msg_flags m"
    by (intro exI [of _ ?m]) simp
next
  let ?sem = "\<lparr> sem_safety = J_SEMANTICS_SAFETY_NONE \<rparr>"
  let ?m = "fold j_kv_get_exec_remote (gop # gops)
      (j_message_append_n (j_message_set_safety (j_message_new J_MESSAGE_KV_GET) ?sem)
         (kv_namespace (get_kv gop) @ [NUL]))"
  have f: "msg_flags ?m = {}"
    by (simp only: fold_get_remote_flags set_safety_none_flags)
  have "j_kv_get_exec None (gop # gops) ?sem w
          = (case j_message_receive
                    (j_message_send ?m (j_connection_pool_pop_kv (kv_index (get_kv gop)) w)) of
               Inl f \<Rightarrow> Inl f
             | Inr (reply, w2) \<Rightarrow>
                 (case j_kv_get_exec_reply (gop # gops) (msg_fields reply) True w2 of
                    Inl f \<Rightarrow> Inl f
                  | Inr (ret, w3) \<Rightarrow>
                      Inr (ret, j_connection_pool_push_kv (kv_index (get_kv gop)) w3)))"
    unfolding j_kv_get_exec_def Let_def
    by (simp split: sum.splits prod.splits)
  with f show "\<exists>m. j_kv_get_exec None (gop # gops) ?sem w
          = (case j_message_receive
                    (j_message_send m (j_connection_pool_pop_kv (kv_index (get_kv gop)) w)) of
               Inl f \<Rightarrow> Inl f
             | Inr (reply, w2) \<Rightarrow>
                 (case j_kv_get_exec_reply (gop # gops) (msg_fields reply) True w2 of
                    Inl f \<Rightarrow> Inl f
                  | Inr (ret, w3) \<Rightarrow>
                      Inr (ret, j_connection_pool_push_kv (kv_index (get_kv gop)) w3)))
        \<and> J_MESSAGE_FLAGS_SAFETY_NETWORK \<notin> msg_flags m"
    by (intro exI [of _ ?m]) simp
qed

section \<open>The kv client: keys that are not found\<close>








section \<open>The object client: results of create, delete and status runs\<close>

lemma j_list_iterate_ret_False:
  assumes "\<And>x s. (\<exists>s'. body x (False, s) = Inr (False, s')) \<or> body x (False, s) = Inl CriticalAbort"
  shows "(\<exists>s'. j_list_iterate body ops (False, s) = Inr (False, s'))
         \<or> j_list_iterate body ops (False, s) = Inl CriticalAbort"
proof (induction ops arbitrary: s)
  case Nil
  then show ?case by simp
next
  case (Cons x ops)
  from assms [of x s] show ?case
  proof
    assume "\<exists>s'. body x (False, s) = Inr (False, s')"
    then obtain s' where "body x (False, s) = Inr (False, s')" by blast
    with Cons.IH [of s'] show ?thesis by simp
  next
    assume "body x (False, s) = Inl CriticalAbort"
    then show ?thesis by simp
  qed
qed

lemma j_list_iterate_returns_False:
  assumes "\<And>x s. \<exists>s'. body x (False, s) = Inr (False, s')"
  shows "\<exists>s'. j_list_iterate body ops (False, s) = Inr (False, s')"
proof (induction ops arbitrary: s)
  case Nil
  then show ?case by simp
next
  case (Cons x ops)
  from assms [of x s] obtain s' where "body x (False, s) = Inr (False, s')" by blast
  with Cons.IH [of s'] show ?case by simp
qed

lemma create_local_False:
  "(\<exists>s'. j_object_create_exec_local criticals be x (False, s) = Inr (False, s'))
   \<or> j_object_create_exec_local criticals be x (False, s) = Inl CriticalAbort"
  by (simp add: j_object_create_exec_local_def j_backend_object_close_def
      j_backend_object_create_def g_return_val_if_fail_def
      split: prod.splits glib_criticals.splits)

lemma create_local_logged_False:
  "\<exists>s'. j_object_create_exec_local Criticals_logged be x (False, s) = Inr (False, s')"
  by (simp add: j_object_create_exec_local_def j_backend_object_close_def
      j_backend_object_create_def g_return_val_if_fail_def
      split: prod.splits)

lemma delete_local_False:
  "(\<exists>s'. j_object_delete_exec_local criticals be x (False, s) = Inr (False, s'))
   \<or> j_object_delete_exec_local criticals be x (False, s) = Inl CriticalAbort"
  by (simp add: j_object_delete_exec_local_def j_backend_object_delete_def
      j_backend_object_open_def g_return_val_if_fail_def
      split: prod.splits glib_criticals.splits)

lemma delete_local_logged_False:
  "\<exists>s'. j_object_delete_exec_local Criticals_logged be x (False, s) = Inr (False, s')"
  by (simp add: j_object_delete_exec_local_def j_backend_object_delete_def
      j_backend_object_open_def g_return_val_if_fail_def
      split: prod.splits)

lemma status_local_False:
  "(\<exists>s'. j_object_status_exec_local criticals be x (False, s) = Inr (False, s'))
   \<or> j_object_status_exec_local criticals be x (False, s) = Inl CriticalAbort"
  by (simp add: j_object_status_exec_local_def j_backend_object_status_def
      j_backend_object_close_def
      j_backend_object_open_def g_return_val_if_fail_def
      split: prod.splits glib_criticals.splits option.splits)

lemma status_local_logged_False:
  "\<exists>s'. j_object_status_exec_local Criticals_logged be x (False, s) = Inr (False, s')"
  by (simp add: j_object_status_exec_local_def j_backend_object_status_def
      j_backend_object_close_def
      j_backend_object_open_def g_return_val_if_fail_def
      split: prod.splits option.splits)

text \<open>
  C2 (the code departs from it): the claim is that a run of object create operations in
  which every backend call succeeds reports success, and likewise a delete run and a
  status run. In \<^verbatim>\<open>j_object_create_exec\<close>, \<^verbatim>\<open>j_object_delete_exec\<close> and
  \<^verbatim>\<open>j_object_status_exec\<close> the result \<^verbatim>\<open>ret\<close> starts as \<^verbatim>\<open>FALSE\<close> and is only ever
  combined by \<^verbatim>\<open>&& ret\<close>, so with a local backend each of the three returns false
  whatever the backend calls return (where critical messages are fatal, a run in which
  the backend leaves a \<^verbatim>\<open>NULL\<close> handle returns false or is aborted, and never returns
  true); with the backend all of whose calls succeed, a run of one create returns false
  however GLib treats critical messages.
\<close>

theorem object_exec_returns_false:
  "(\<exists>w'. j_object_create_exec Criticals_logged (Some be) (object # objects) sem w
            = Inr (False, w'))
   \<and> (\<exists>w'. j_object_delete_exec Criticals_logged (Some be) (object # objects) sem w
            = Inr (False, w'))
   \<and> (\<exists>w'. j_object_status_exec Criticals_logged (Some be) (operation # operations) sem w
            = Inr (False, w'))
   \<and> ((\<exists>w'. j_object_create_exec Criticals_fatal (Some be) (object # objects) sem w
             = Inr (False, w'))
       \<or> j_object_create_exec Criticals_fatal (Some be) (object # objects) sem w
           = Inl CriticalAbort)
   \<and> ((\<exists>w'. j_object_delete_exec Criticals_fatal (Some be) (object # objects) sem w
             = Inr (False, w'))
       \<or> j_object_delete_exec Criticals_fatal (Some be) (object # objects) sem w
           = Inl CriticalAbort)
   \<and> ((\<exists>w'. j_object_status_exec Criticals_fatal (Some be) (operation # operations) sem w
             = Inr (False, w'))
       \<or> j_object_status_exec Criticals_fatal (Some be) (operation # operations) sem w
           = Inl CriticalAbort)
   \<and> j_object_create_exec criticals (Some example_object_backend) [example_object]
         example_semantics_none example_world = Inr (False, example_world)
   \<and> j_object_delete_exec criticals (Some example_object_backend) [example_object]
         example_semantics_none example_world = Inr (False, example_world)
   \<and> (\<exists>w'. j_object_status_exec criticals (Some example_object_backend) [example_status]
         example_semantics_none example_world = Inr (False, w')
         \<and> mem_u64 w' 2 = 16)"
proof (intro conjI)
  show "\<exists>w'. j_object_create_exec Criticals_logged (Some be) (object # objects) sem w
            = Inr (False, w')"
    using j_list_iterate_returns_False
      [of "j_object_create_exec_local Criticals_logged be" "object # objects"
        "local_object w", OF create_local_logged_False]
    by (auto simp: j_object_create_exec_def Let_def)
  show "\<exists>w'. j_object_delete_exec Criticals_logged (Some be) (object # objects) sem w
            = Inr (False, w')"
    using j_list_iterate_returns_False
      [of "j_object_delete_exec_local Criticals_logged be" "object # objects"
        "local_object w", OF delete_local_logged_False]
    by (auto simp: j_object_delete_exec_def Let_def)
  show "\<exists>w'. j_object_status_exec Criticals_logged (Some be) (operation # operations) sem w
            = Inr (False, w')"
    using j_list_iterate_returns_False
      [of "j_object_status_exec_local Criticals_logged be" "operation # operations" w,
        OF status_local_logged_False]
    by (auto simp: j_object_status_exec_def Let_def)
  show "(\<exists>w'. j_object_create_exec Criticals_fatal (Some be) (object # objects) sem w
             = Inr (False, w'))
       \<or> j_object_create_exec Criticals_fatal (Some be) (object # objects) sem w
           = Inl CriticalAbort"
    using j_list_iterate_ret_False
      [of "j_object_create_exec_local Criticals_fatal be" "object # objects"
        "local_object w", OF create_local_False]
    by (auto simp: j_object_create_exec_def Let_def)
  show "(\<exists>w'. j_object_delete_exec Criticals_fatal (Some be) (object # objects) sem w
             = Inr (False, w'))
       \<or> j_object_delete_exec Criticals_fatal (Some be) (object # objects) sem w
           = Inl CriticalAbort"
    using j_list_iterate_ret_False
      [of "j_object_delete_exec_local Criticals_fatal be" "object # objects"
        "local_object w", OF delete_local_False]
    by (auto simp: j_object_delete_exec_def Let_def)
  show "(\<exists>w'. j_object_status_exec Criticals_fatal (Some be) (operation # operations) sem w
             = Inr (False, w'))
       \<or> j_object_status_exec Criticals_fatal (Some be) (operation # operations) sem w
           = Inl CriticalAbort"
    using j_list_iterate_ret_False
      [of "j_object_status_exec_local Criticals_fatal be" "operation # operations" w,
        OF status_local_False]
    by (auto simp: j_object_status_exec_def Let_def)
  show "j_object_create_exec criticals (Some example_object_backend) [example_object]
         example_semantics_none example_world = Inr (False, example_world)"
    by (simp add: j_object_create_exec_def j_object_create_exec_local_def Let_def
        j_backend_object_create_def j_backend_object_close_def g_return_val_if_fail_def
        example_object_backend_def example_world_def)
  show "j_object_delete_exec criticals (Some example_object_backend) [example_object]
         example_semantics_none example_world = Inr (False, example_world)"
    by (simp add: j_object_delete_exec_def j_object_delete_exec_local_def Let_def
        j_backend_object_open_def j_backend_object_delete_def g_return_val_if_fail_def
        example_object_backend_def example_world_def)
  show "\<exists>w'. j_object_status_exec criticals (Some example_object_backend) [example_status]
         example_semantics_none example_world = Inr (False, w') \<and> mem_u64 w' 2 = 16"
    by (simp add: j_object_status_exec_def j_object_status_exec_local_def Let_def
        j_backend_object_open_def j_backend_object_close_def g_return_val_if_fail_def
        j_backend_object_status_def example_object_backend_def example_world_def
        example_status_def)
qed

section \<open>The object client: byte counters\<close>

















section \<open>Violated preconditions\<close>

text \<open>
  C9, as amended: what a call of \<^verbatim>\<open>j_object_read\<close> or \<^verbatim>\<open>j_object_write\<close> with a null
  handle, a null buffer, a zero length or a null counter, or of \<^verbatim>\<open>j_kv_new_for_index\<close>
  with an index that is not below the kv server count, does depends on how GLib treats
  critical messages, since the checks are \<^verbatim>\<open>g_return_if_fail\<close> and
  \<^verbatim>\<open>g_return_val_if_fail\<close>. Where critical messages are logged, which is GLib's default,
  the call returns to its caller with the batch and the caller's memory as they were,
  and \<^verbatim>\<open>j_kv_new_for_index\<close> returns \<^verbatim>\<open>NULL\<close>. Where critical messages are fatal
  (\<^verbatim>\<open>G_DEBUG=fatal-criticals\<close>, or after \<^verbatim>\<open>g_test_init\<close> as in src/test/test.c) the
  failed check ends the process at the call site. With valid arguments none of the
  checks ends the process in either mode.
\<close>

theorem precondition_violation_returns:
  "((object = None \<or> bytes = None \<or> len = 0 \<or> counter = None) \<longrightarrow>
       j_object_write criticals object bytes len offset counter batch w
         = (case criticals of
              Criticals_logged \<Rightarrow> Inr (batch, w)
            | Criticals_fatal \<Rightarrow> Inl CriticalAbort))
   \<and> ((object = None \<or> buffer = None \<or> len = 0 \<or> counter = None) \<longrightarrow>
       j_object_read criticals object buffer len offset counter batch w
         = (case criticals of
              Criticals_logged \<Rightarrow> Inr (batch, w)
            | Criticals_fatal \<Rightarrow> Inl CriticalAbort))
   \<and> (\<not> index < j_configuration_get_kv_server_count cfg \<longrightarrow>
       j_kv_new_for_index criticals cfg index namespace key
         = (case criticals of
              Criticals_logged \<Rightarrow> Inr None
            | Criticals_fatal \<Rightarrow> Inl CriticalAbort))
   \<and> (\<not> (object = None \<or> bytes = None \<or> len = 0 \<or> counter = None) \<longrightarrow>
       (\<exists>batch' w'. j_object_write criticals object bytes len offset counter batch w
                       = Inr (batch', w')))
   \<and> (\<not> (object = None \<or> buffer = None \<or> len = 0 \<or> counter = None) \<longrightarrow>
       (\<exists>batch' w'. j_object_read criticals object buffer len offset counter batch w
                       = Inr (batch', w')))
   \<and> (index < j_configuration_get_kv_server_count cfg \<and> namespace \<noteq> None \<and> key \<noteq> None
       \<longrightarrow> (\<exists>kv. j_kv_new_for_index criticals cfg index namespace key = Inr (Some kv)))"
proof -
  have z: "(0 < len) = (len \<noteq> 0)"
    by (simp add: word_greater_zero_iff)
  show ?thesis
    unfolding j_object_write_def j_object_read_def j_kv_new_for_index_def
      g_return_val_if_fail_def z
    by (cases criticals) auto
qed

theorem precondition_violation_counterexample:
  "j_object_write Criticals_logged None (Some ''ABCDEF'') 6 10 (Some 3)
       example_batch example_world
     = Inr (example_batch, example_world)
   \<and> j_object_write Criticals_logged (Some example_object) (Some ''ABCDEF'') 0 10 (Some 3)
         example_batch example_world
     = Inr (example_batch, example_world)
   \<and> j_object_read Criticals_logged (Some example_object) None 6 10 (Some 3)
         example_batch example_world
     = Inr (example_batch, example_world)
   \<and> j_kv_new_for_index Criticals_logged (Some example_configuration) 4
         (Some ''ns'') (Some ''a'')
     = Inr None"
  by (simp add: j_object_write_def j_object_read_def j_kv_new_for_index_def
      g_return_val_if_fail_def example_configuration_counts)

theorem precondition_violation_returns_witness:
  "j_object_write Criticals_logged (Some example_object) None 6 10 (Some 3)
       example_batch example_world
     = Inr (example_batch, example_world)
   \<and> j_object_write Criticals_fatal (Some example_object) None 6 10 (Some 3)
       example_batch example_world
     = Inl CriticalAbort
   \<and> j_object_read Criticals_logged (Some example_object) (Some 9) 6 10 None
       example_batch example_world
     = Inr (example_batch, example_world)
   \<and> j_object_read Criticals_fatal (Some example_object) (Some 9) 6 10 None
       example_batch example_world
     = Inl CriticalAbort
   \<and> \<not> 7 < j_configuration_get_kv_server_count (Some example_configuration)
   \<and> j_kv_new_for_index Criticals_logged (Some example_configuration) 7
       (Some ''ns'') (Some ''a'')
     = Inr None
   \<and> j_kv_new_for_index Criticals_fatal (Some example_configuration) 7
       (Some ''ns'') (Some ''a'')
     = Inl CriticalAbort
   \<and> (\<exists>batch' w'. j_object_write Criticals_fatal (Some example_object) (Some ''ABCDEF'')
                     6 10 (Some 3) example_batch example_world
                   = Inr (batch', w'))
   \<and> (\<exists>kv. j_kv_new_for_index Criticals_fatal (Some example_configuration) 2
              (Some ''ns'') (Some ''a'')
            = Inr (Some kv))"
proof -
  have c: "\<not> 7 < j_configuration_get_kv_server_count (Some example_configuration)"
    by (simp add: example_configuration_counts)
  have c2: "2 < j_configuration_get_kv_server_count (Some example_configuration)"
    by (simp add: example_configuration_counts)
  from precondition_violation_returns [where object = "Some example_object"
      and bytes = None and len = 6 and offset = 10 and counter = "Some 3"
      and batch = example_batch and w = example_world and criticals = Criticals_logged,
      THEN conjunct1]
  have a: "j_object_write Criticals_logged (Some example_object) None 6 10 (Some 3)
       example_batch example_world
     = Inr (example_batch, example_world)"
    by simp
  from precondition_violation_returns [where object = "Some example_object"
      and bytes = None and len = 6 and offset = 10 and counter = "Some 3"
      and batch = example_batch and w = example_world and criticals = Criticals_fatal,
      THEN conjunct1]
  have a': "j_object_write Criticals_fatal (Some example_object) None 6 10 (Some 3)
       example_batch example_world
     = Inl CriticalAbort"
    by simp
  from precondition_violation_returns [where object = "Some example_object"
      and buffer = "Some 9" and len = 6 and offset = 10 and counter = None
      and batch = example_batch and w = example_world and criticals = Criticals_logged,
      THEN conjunct2, THEN conjunct1]
  have b: "j_object_read Criticals_logged (Some example_object) (Some 9) 6 10 None
       example_batch example_world
     = Inr (example_batch, example_world)"
    by simp
  from precondition_violation_returns [where object = "Some example_object"
      and buffer = "Some 9" and len = 6 and offset = 10 and counter = None
      and batch = example_batch and w = example_world and criticals = Criticals_fatal,
      THEN conjunct2, THEN conjunct1]
  have b': "j_object_read Criticals_fatal (Some example_object) (Some 9) 6 10 None
       example_batch example_world
     = Inl CriticalAbort"
    by simp
  from precondition_violation_returns [where index = 7
      and cfg = "Some example_configuration" and namespace = "Some ''ns''"
      and key = "Some ''a''" and criticals = Criticals_logged,
      THEN conjunct2, THEN conjunct2, THEN conjunct1] c
  have d: "j_kv_new_for_index Criticals_logged (Some example_configuration) 7
       (Some ''ns'') (Some ''a'')
     = Inr None"
    by simp
  from precondition_violation_returns [where index = 7
      and cfg = "Some example_configuration" and namespace = "Some ''ns''"
      and key = "Some ''a''" and criticals = Criticals_fatal,
      THEN conjunct2, THEN conjunct2, THEN conjunct1] c
  have d': "j_kv_new_for_index Criticals_fatal (Some example_configuration) 7
       (Some ''ns'') (Some ''a'')
     = Inl CriticalAbort"
    by simp
  from precondition_violation_returns [where object = "Some example_object"
      and bytes = "Some ''ABCDEF''" and len = 6 and offset = 10 and counter = "Some 3"
      and batch = example_batch and w = example_world and criticals = Criticals_fatal,
      THEN conjunct2, THEN conjunct2, THEN conjunct2, THEN conjunct1]
  have e: "\<exists>batch' w'. j_object_write Criticals_fatal (Some example_object)
                     (Some ''ABCDEF'') 6 10 (Some 3) example_batch example_world
                   = Inr (batch', w')"
    by simp
  from precondition_violation_returns [where index = 2
      and cfg = "Some example_configuration" and namespace = "Some ''ns''"
      and key = "Some ''a''" and criticals = Criticals_fatal,
      THEN conjunct2, THEN conjunct2, THEN conjunct2, THEN conjunct2, THEN conjunct2] c2
  have f: "\<exists>kv. j_kv_new_for_index Criticals_fatal (Some example_configuration) 2
              (Some ''ns'') (Some ''a'')
            = Inr (Some kv)"
    by simp
  from a a' b b' c d d' e f show ?thesis by blast
qed

end
